theory Spec2Isabelle
  imports Main "HOL-Library.Mapping" "HOL-Library.Sublist" "HOL-Library.AList"
    "HOL-Library.Char_ord" "HOL-Library.List_Lexorder" "HOL-Library.Code_Target_Nat"
begin

section \<open>Message deduplicator (internal/witness/dedup.go)\<close>

text \<open>
  The Go struct holds a mutex, a \<^verbatim>\<open>map[string]bool\<close> and a capacity hint.  Every
  method body runs under the mutex, so a call is one atomic step on the state; the
  model is the sequential state transformer of one such step.
\<close>

record MessageDeduplicator =
  processed :: "(string, bool) mapping"
  maxSize :: int

definition NewMessageDeduplicator :: "int \<Rightarrow> MessageDeduplicator" where
  "NewMessageDeduplicator n =
     \<lparr>processed = Mapping.empty, maxSize = (if n \<le> 0 then 10000 else n)\<rparr>"

text \<open>Indexing a Go \<^verbatim>\<open>map[string]bool\<close>: a missing key reads as \<^verbatim>\<open>false\<close>.\<close>

definition map_index :: "(string, bool) mapping \<Rightarrow> string \<Rightarrow> bool" where
  "map_index m k = (case Mapping.lookup m k of None \<Rightarrow> False | Some b \<Rightarrow> b)"

definition AlreadyProcessed :: "MessageDeduplicator \<Rightarrow> string \<Rightarrow> bool \<times> MessageDeduplicator" where
  "AlreadyProcessed d messageID =
     (if messageID = [] then (False, d)
      else if map_index (processed d) messageID then (True, d)
      else (False, d\<lparr>processed := Mapping.update messageID True (processed d)\<rparr>))"

definition Size :: "MessageDeduplicator \<Rightarrow> nat" where
  "Size d = Mapping.size (processed d)"

text \<open>A sequence of calls made by the same process, results discarded.\<close>

fun calls :: "MessageDeduplicator \<Rightarrow> string list \<Rightarrow> MessageDeduplicator" where
  "calls d [] = d"
| "calls d (i # is) = calls (snd (AlreadyProcessed d i)) is"


section \<open>Mail drainer (internal/cmd/mail_drain.go)\<close>

text \<open>
  The fields of \<^verbatim>\<open>mail.Message\<close> that \<^verbatim>\<open>runMailDrain\<close> reads.  A \<^verbatim>\<open>time.Time\<close> is
  an instant on the integer time line and a \<^verbatim>\<open>time.Duration\<close> an integer number of
  the same unit; \<^verbatim>\<open>After\<close> and \<^verbatim>\<open>Before\<close> are the strict orders.
\<close>

record Message =
  ID :: string
  Subject :: string
  Timestamp :: int
  Read :: bool
  Wisp :: bool

definition drainableSubjects :: "string list" where
  "drainableSubjects =
     [''POLECAT_DONE'', ''POLECAT_STARTED'', ''LIFECYCLE:'', ''MERGED'',
      ''MERGE_READY'', ''MERGE_FAILED'', ''SWARM_START'']"

definition isDrainableMessage :: "string \<Rightarrow> bool" where
  "isDrainableMessage subject = list_ex (\<lambda>p. prefix p subject) drainableSubjects"

text \<open>
  The two selection loops of \<^verbatim>\<open>runMailDrain\<close>, in the order they append to
  \<^verbatim>\<open>candidates\<close>; \<open>cutoff\<close> is \<^verbatim>\<open>time.Now().Add(-maxAge)\<close>.
\<close>

definition protocol_candidates :: "bool \<Rightarrow> int \<Rightarrow> Message list \<Rightarrow> (Message \<times> string) list" where
  "protocol_candidates mailDrainAll cutoff msgs =
     map (\<lambda>msg. (msg, if Wisp msg then ''wisp+protocol'' else ''protocol''))
       (filter (\<lambda>msg. isDrainableMessage (Subject msg)
                     \<and> \<not> (\<not> mailDrainAll \<and> Timestamp msg > cutoff)) msgs)"

definition read_wisp_candidates :: "bool \<Rightarrow> int \<Rightarrow> Message list \<Rightarrow> (Message \<times> string) list" where
  "read_wisp_candidates mailDrainAll cutoff msgs =
     map (\<lambda>msg. (msg, ''read-wisp''))
       (filter (\<lambda>msg. \<not> isDrainableMessage (Subject msg)
                     \<and> (Wisp msg \<and> Read msg \<and> (mailDrainAll \<or> Timestamp msg < cutoff))) msgs)"

definition drain_candidates :: "bool \<Rightarrow> int \<Rightarrow> int \<Rightarrow> Message list \<Rightarrow> (Message \<times> string) list" where
  "drain_candidates mailDrainAll maxAge now msgs =
     protocol_candidates mailDrainAll (now - maxAge) msgs
     @ read_wisp_candidates mailDrainAll (now - maxAge) msgs"

text \<open>
  Modelled from the spec: the mailbox behind \<^verbatim>\<open>getMailbox\<close> (package mail, whose
  implementation is not among the sources).  The spec gives it the operations List and
  Delete(id) over messages keyed by id.  \<open>delete_fails\<close> says for which ids the
  store reports an error; a failed delete leaves the mailbox as it was.
\<close>

record Mailbox =
  stored :: "Message list"
  delete_fails :: "string \<Rightarrow> bool"

definition Mailbox_List :: "Mailbox \<Rightarrow> Message list" where
  "Mailbox_List mb = stored mb"

definition Mailbox_Delete :: "Mailbox \<Rightarrow> string \<Rightarrow> string + Mailbox" where
  "Mailbox_Delete mb i =
     (if delete_fails mb i then Inl (''delete failed: '' @ i)
      else Inr (mb\<lparr>stored := filter (\<lambda>m. ID m \<noteq> i) (stored mb)\<rparr>))"

text \<open>
  The archive loop: one \<^verbatim>\<open>Delete\<close> per candidate; an error is collected and the loop
  goes on.  The result is the mailbox, the number archived and the errors.
\<close>

fun archive_loop :: "Mailbox \<Rightarrow> (Message \<times> string) list \<Rightarrow> nat \<Rightarrow> string list
    \<Rightarrow> Mailbox \<times> nat \<times> string list" where
  "archive_loop mb [] archived errs = (mb, archived, errs)"
| "archive_loop mb (c # cs) archived errs =
     (case Mailbox_Delete mb (ID (fst c)) of
        Inl e \<Rightarrow> archive_loop mb cs archived (errs @ [ID (fst c) @ '': '' @ e])
      | Inr mb' \<Rightarrow> archive_loop mb' cs (archived + 1) errs)"

text \<open>
  \<^verbatim>\<open>runMailDrain\<close> after the flags are parsed and the mailbox is found: the returned
  error (\<open>None\<close> for \<^verbatim>\<open>nil\<close>) and the mailbox afterwards.  Printing is left out.
\<close>

definition runMailDrain :: "bool \<Rightarrow> bool \<Rightarrow> int \<Rightarrow> int \<Rightarrow> Mailbox \<Rightarrow> string option \<times> Mailbox" where
  "runMailDrain mailDrainAll mailDrainDryRun maxAge now mb =
     (let messages = Mailbox_List mb in
      if messages = [] then (None, mb)
      else
        let candidates = drain_candidates mailDrainAll maxAge now messages in
        if candidates = [] then (None, mb)
        else if mailDrainDryRun then (None, mb)
        else
          (case archive_loop mb candidates 0 [] of
             (mb', archived, errs) \<Rightarrow>
               if errs \<noteq> [] then (Some ''failed to drain messages'', mb')
               else (None, mb')))"


section \<open>Log rotator (internal/daemon/log_rotation.go)\<close>

subsection \<open>The file system the rotator sees\<close>

text \<open>
  Regular files by path, each with its size and modification time.  The environment
  supplies the clock that stamps a write, the paths on which creating or truncating is
  refused, and the length of the gzip image of a given number of bytes.  The paths of
  \<open>files\<close> are distinct in a well-formed file system.
\<close>

record fileinfo =
  fsize :: nat
  mtime :: int

record filesystem =
  files :: "(string \<times> fileinfo) list"
  clock :: int
  deny :: "string \<Rightarrow> bool"
  gz_len :: "nat \<Rightarrow> nat"

datatype os_error = ENOENT | EACCES

definition wf_fs :: "filesystem \<Rightarrow> bool" where
  "wf_fs fs = distinct (map fst (files fs))"

definition os_Stat :: "filesystem \<Rightarrow> string \<Rightarrow> fileinfo option" where
  "os_Stat fs p = map_of (files fs) p"

text \<open>Every caller of \<^verbatim>\<open>os.Remove\<close> and \<^verbatim>\<open>os.Rename\<close> drops the error.\<close>

definition os_Remove :: "filesystem \<Rightarrow> string \<Rightarrow> filesystem" where
  "os_Remove fs p = fs\<lparr>files := AList.delete p (files fs)\<rparr>"

definition os_Rename :: "filesystem \<Rightarrow> string \<Rightarrow> string \<Rightarrow> filesystem" where
  "os_Rename fs old new =
     (case os_Stat fs old of
        None \<Rightarrow> fs
      | Some f \<Rightarrow> fs\<lparr>files := AList.update new f (AList.delete old (files fs))\<rparr>)"

definition os_Truncate :: "filesystem \<Rightarrow> string \<Rightarrow> os_error option \<times> filesystem" where
  "os_Truncate fs p =
     (case os_Stat fs p of
        None \<Rightarrow> (Some ENOENT, fs)
      | Some f \<Rightarrow>
          if deny fs p then (Some EACCES, fs)
          else (None, fs\<lparr>files := AList.update p (f\<lparr>fsize := 0, mtime := clock fs\<rparr>) (files fs)\<rparr>))"

text \<open>
  \<^verbatim>\<open>compressFile\<close>: open the source, create the destination, copy through gzip.
\<close>

definition compressFile :: "filesystem \<Rightarrow> string \<Rightarrow> string \<Rightarrow> os_error option \<times> filesystem" where
  "compressFile fs src dst =
     (case os_Stat fs src of
        None \<Rightarrow> (Some ENOENT, fs)
      | Some f \<Rightarrow>
          if deny fs dst then (Some EACCES, fs)
          else (None, fs\<lparr>files :=
                  AList.update dst \<lparr>fsize = gz_len fs (fsize f), mtime = clock fs\<rparr> (files fs)\<rparr>))"

subsection \<open>Names of the rotations\<close>


definition logRotationMaxBackups :: nat where
  "logRotationMaxBackups = 3"

text \<open>\<^verbatim>\<open>%d\<close> of a non-negative integer.\<close>

definition digit :: "nat \<Rightarrow> char" where
  "digit d = ''0123456789'' ! d"

fun show_nat :: "nat \<Rightarrow> string" where
  "show_nat n =
     (if n < 10 then [digit n]
      else show_nat (n div 10) @ [digit (n mod 10)])"

declare show_nat.simps [simp del]

text \<open>\<^verbatim>\<open>fmt.Sprintf("%s.%d.gz", logPath, i)\<close>\<close>

definition rotation_name :: "string \<Rightarrow> nat \<Rightarrow> string" where
  "rotation_name logPath i = logPath @ ''.'' @ show_nat i @ ''.gz''"

text \<open>
  \<^verbatim>\<open>filepath.Glob(filepath.Join(dir, base + ".*.gz"))\<close> for a log path without pattern
  characters: the star stands for any run of characters other than the separator.
  \<^verbatim>\<open>Glob\<close> returns the names of a directory in sorted order.
\<close>

definition glob_match :: "string \<Rightarrow> string \<Rightarrow> bool" where
  "glob_match logPath q =
     (prefix (logPath @ ''.'') q
      \<and> (let r = drop (length logPath + 1) q
         in suffix ''.gz'' r \<and> CHR ''/'' \<notin> set (take (length r - 3) r)))"

definition Glob_rotations :: "filesystem \<Rightarrow> string \<Rightarrow> string list" where
  "Glob_rotations fs logPath = sort (filter (glob_match logPath) (map fst (files fs)))"

text \<open>
  The state of a log's directory that the rotator itself produces: the only names
  matching the pattern are the numbered rotations up to \<^verbatim>\<open>logRotationMaxBackups\<close>.
\<close>

definition only_rotations :: "filesystem \<Rightarrow> string \<Rightarrow> bool" where
  "only_rotations fs logPath =
     list_all (\<lambda>q. glob_match logPath q \<longrightarrow>
                 q \<in> set (map (rotation_name logPath) [1..<Suc logRotationMaxBackups]))
       (map fst (files fs))"

subsection \<open>Copy-truncate rotation\<close>

text \<open>
  The shift loop of \<^verbatim>\<open>copyTruncateRotate\<close>, \<open>i\<close> running from
  \<^verbatim>\<open>logRotationMaxBackups\<close> down to 1: the oldest is removed, each other one renamed to
  the next number.
\<close>

fun shift_rotations :: "string \<Rightarrow> nat \<Rightarrow> filesystem \<Rightarrow> filesystem" where
  "shift_rotations logPath 0 fs = fs"
| "shift_rotations logPath (Suc n) fs =
     shift_rotations logPath n
       (if Suc n = logRotationMaxBackups then os_Remove fs (rotation_name logPath (Suc n))
        else os_Rename fs (rotation_name logPath (Suc n)) (rotation_name logPath (Suc n + 1)))"

definition mtime_of :: "filesystem \<Rightarrow> string \<Rightarrow> int" where
  "mtime_of fs q = (case os_Stat fs q of None \<Rightarrow> 0 | Some f \<Rightarrow> mtime f)"

text \<open>
  \<^verbatim>\<open>cleanOldRotations\<close>: when more than \<^verbatim>\<open>logRotationMaxBackups\<close> names match, they are
  sorted by modification time, oldest first, and the extras removed from the front.
  \<^verbatim>\<open>sort.Slice\<close> on a slice this short is an insertion sort, which keeps the order of
  equal elements.
\<close>

definition cleanOldRotations :: "filesystem \<Rightarrow> string \<Rightarrow> filesystem" where
  "cleanOldRotations fs logPath =
     (let matches = Glob_rotations fs logPath in
      if length matches \<le> logRotationMaxBackups then fs
      else foldl os_Remove fs
             (take (length matches - logRotationMaxBackups) (sort_key (mtime_of fs) matches)))"

datatype rotate_error =
    Compressing string os_error
  | Truncating string os_error

definition copyTruncateRotate :: "filesystem \<Rightarrow> string \<Rightarrow> rotate_error option \<times> filesystem" where
  "copyTruncateRotate fs logPath =
     (let fs1 = shift_rotations logPath logRotationMaxBackups fs;
          dst = logPath @ ''.1.gz''
      in case compressFile fs1 logPath dst of
           (Some e, fs2) \<Rightarrow> (Some (Compressing dst e), fs2)
         | (None, fs2) \<Rightarrow>
             (case os_Truncate fs2 logPath of
                (Some e, fs3) \<Rightarrow> (Some (Truncating logPath e), fs3)
              | (None, fs3) \<Rightarrow> (None, cleanOldRotations fs3 logPath)))"

subsection \<open>Discovery and the two rotation runs\<close>

text \<open>
  \<^verbatim>\<open>filepath.Join\<close> of a clean, non-empty directory and a relative name.
\<close>

definition path_join :: "string \<Rightarrow> string \<Rightarrow> string" where
  "path_join d n = d @ ''/'' @ n"

text \<open>
  The directories that \<^verbatim>\<open>os.ReadDir(townRoot)\<close> lists, in name order: those first
  path components below the town root under which some file lives.
\<close>

definition first_component :: "string \<Rightarrow> string \<Rightarrow> string" where
  "first_component townRoot q =
     takeWhile (\<lambda>c. c \<noteq> CHR ''/'') (drop (length townRoot + 1) q)"

definition subdirs :: "filesystem \<Rightarrow> string \<Rightarrow> string list" where
  "subdirs fs townRoot =
     sort (remdups
       (map (first_component townRoot)
          (filter (\<lambda>q. prefix (townRoot @ ''/'') q
                      \<and> CHR ''/'' \<in> set (drop (length townRoot + 1) q))
             (map fst (files fs)))))"

definition existing :: "filesystem \<Rightarrow> string \<Rightarrow> string list" where
  "existing fs p = (if os_Stat fs p \<noteq> None then [p] else [])"

definition rig_logs :: "filesystem \<Rightarrow> string \<Rightarrow> string \<Rightarrow> string list" where
  "rig_logs fs townRoot name =
     (if prefix ''.'' name \<or> name = ''daemon'' then []
      else existing fs (path_join townRoot (name @ ''/.beads/dolt-server.log''))
         @ existing fs (path_join townRoot (name @ ''/rig/.beads/dolt-server.log'')))"

definition daemon_logs :: "filesystem \<Rightarrow> string \<Rightarrow> string list" where
  "daemon_logs fs daemonDir =
     concat (map (\<lambda>name. existing fs (path_join daemonDir name))
               [''dolt.log'', ''dolt-server.log'', ''dolt-test-server.log''])"

definition collectDoltLogFiles :: "filesystem \<Rightarrow> string \<Rightarrow> string \<Rightarrow> string list" where
  "collectDoltLogFiles fs daemonDir townRoot =
     daemon_logs fs daemonDir @ concat (map (rig_logs fs townRoot) (subdirs fs townRoot))"

record RotateLogsResult =
  Rotated :: "string list"
  Skipped :: "string list"
  Errors :: "(string \<times> rotate_error) list"

text \<open>
  The loop body shared by \<^verbatim>\<open>RotateLogs\<close> and \<^verbatim>\<open>ForceRotateLogs\<close>, which differ only in
  the test that skips a file.  A file that has vanished since discovery is passed over.
\<close>

fun rotate_loop :: "(fileinfo \<Rightarrow> bool) \<Rightarrow> string list \<Rightarrow> RotateLogsResult \<Rightarrow> filesystem
    \<Rightarrow> RotateLogsResult \<times> filesystem" where
  "rotate_loop skip [] result fs = (result, fs)"
| "rotate_loop skip (logPath # rest) result fs =
     (case os_Stat fs logPath of
        None \<Rightarrow> rotate_loop skip rest result fs
      | Some info \<Rightarrow>
          if skip info
          then rotate_loop skip rest (result\<lparr>Skipped := Skipped result @ [logPath]\<rparr>) fs
          else
            (case copyTruncateRotate fs logPath of
               (Some e, fs') \<Rightarrow>
                 rotate_loop skip rest (result\<lparr>Errors := Errors result @ [(logPath, e)]\<rparr>) fs'
             | (None, fs') \<Rightarrow>
                 rotate_loop skip rest (result\<lparr>Rotated := Rotated result @ [logPath]\<rparr>) fs'))"


definition ForceRotateLogs :: "filesystem \<Rightarrow> string \<Rightarrow> RotateLogsResult \<times> filesystem" where
  "ForceRotateLogs fs townRoot =
     rotate_loop (\<lambda>info. fsize info = 0)
       (collectDoltLogFiles fs (path_join townRoot ''daemon'') townRoot)
       \<lparr>Rotated = [], Skipped = [], Errors = []\<rparr> fs"

text \<open>A supervised child appending to its log, as the scenarios of the spec do.\<close>

definition write_log :: "filesystem \<Rightarrow> string \<Rightarrow> nat \<Rightarrow> filesystem" where
  "write_log fs p n =
     fs\<lparr>files := AList.update p
           \<lparr>fsize = (case os_Stat fs p of None \<Rightarrow> n | Some f \<Rightarrow> fsize f + n), mtime = clock fs\<rparr>
           (files fs)\<rparr>"

subsection \<open>Towns used in the scenarios\<close>


definition seed_town :: filesystem where
  "seed_town =
     \<lparr>files = [(''/town/daemon/dolt.log'', \<lparr>fsize = 5, mtime = 0\<rparr>)],
      clock = 1, deny = (\<lambda>_. False), gz_len = (\<lambda>n. n div 2 + 20)\<rparr>"

definition stray_town :: filesystem where
  "stray_town =
     \<lparr>files = [(''/town/daemon/dolt.log'', \<lparr>fsize = 5, mtime = 0\<rparr>),
               (''/town/daemon/dolt.log.4.gz'', \<lparr>fsize = 30, mtime = 0\<rparr>)],
      clock = 1, deny = (\<lambda>_. False), gz_len = (\<lambda>n. n div 2 + 20)\<rparr>"

definition force_round :: "filesystem \<Rightarrow> filesystem" where
  "force_round fs = snd (ForceRotateLogs (write_log fs ''/town/daemon/dolt.log'' 5) ''/town'')"


section \<open>Retention engine (the wisp reaper of package daemon)\<close>

text \<open>
  The definitions follow the version of the reaper with the auto-close step (the
  five step functions \<^verbatim>\<open>reaperReap\<close>, \<^verbatim>\<open>reaperPurge\<close>, \<^verbatim>\<open>reaperAutoClose\<close>,
  \<^verbatim>\<open>reaperReport\<close> under \<^verbatim>\<open>reapWisps\<close>).  The file internal/daemon/wisp_reaper.go holds
  the same reap, purge and mail purge statements inline, has no auto-close step, and
  differs in one constant, which is kept beside the other below.  A \<^verbatim>\<open>time.Time\<close> is an
  integer count of nanoseconds and a \<^verbatim>\<open>time.Duration\<close> a number of nanoseconds; one
  reading of the clock, \<open>now\<close>, serves a whole run.
\<close>

subsection \<open>Constants and configuration\<close>

definition Hour :: int where
  "Hour = 3600000000000"

definition defaultWispMaxAge :: int where
  "defaultWispMaxAge = 24 * Hour"

definition defaultWispDeleteAge :: int where
  "defaultWispDeleteAge = 7 * 24 * Hour"

definition wispAlertThreshold :: nat where
  "wispAlertThreshold = 500"

definition defaultMailDeleteAge :: int where
  "defaultMailDeleteAge = 7 * 24 * Hour"

text \<open>The same constant as internal/daemon/wisp_reaper.go declares it.\<close>

definition defaultMailDeleteAge_wisp_reaper_go :: int where
  "defaultMailDeleteAge_wisp_reaper_go = 30 * 24 * Hour"

definition defaultStaleIssueAge :: int where
  "defaultStaleIssueAge = 30 * 24 * Hour"

definition deleteBatchSize :: nat where
  "deleteBatchSize = 100"

record WispReaperConfig =
  Enabled :: bool
  DryRun :: bool
  IntervalStr :: string
  MaxAgeStr :: string
  DeleteAgeStr :: string
  Databases :: "string list"

text \<open>
  The three nested pointers \<^verbatim>\<open>config\<close>, \<^verbatim>\<open>config.Patrols\<close> and
  \<^verbatim>\<open>config.Patrols.WispReaper\<close> are one option: \<open>None\<close> when any of them is nil.
  \<^verbatim>\<open>time.ParseDuration\<close> is a parameter, \<open>None\<close> for a parse error.
\<close>

definition wispReaperMaxAge :: "(string \<Rightarrow> int option) \<Rightarrow> WispReaperConfig option \<Rightarrow> int" where
  "wispReaperMaxAge ParseDuration config =
     (case config of
        None \<Rightarrow> defaultWispMaxAge
      | Some c \<Rightarrow>
          if MaxAgeStr c \<noteq> [] then
            (case ParseDuration (MaxAgeStr c) of
               Some d \<Rightarrow> if d > 0 then d else defaultWispMaxAge
             | None \<Rightarrow> defaultWispMaxAge)
          else defaultWispMaxAge)"

definition wispDeleteAge :: "(string \<Rightarrow> int option) \<Rightarrow> WispReaperConfig option \<Rightarrow> int" where
  "wispDeleteAge ParseDuration config =
     (case config of
        None \<Rightarrow> defaultWispDeleteAge
      | Some c \<Rightarrow>
          if DeleteAgeStr c \<noteq> [] then
            (case ParseDuration (DeleteAgeStr c) of
               Some d \<Rightarrow> if d > 0 then d else defaultWispDeleteAge
             | None \<Rightarrow> defaultWispDeleteAge)
          else defaultWispDeleteAge)"

text \<open>
  Modelled from the spec: \<^verbatim>\<open>IsPatrolEnabled\<close>, which is not among the sources.  A patrol
  runs iff its config block exists and has \<^verbatim>\<open>enabled: true\<close>.
\<close>

definition IsPatrolEnabled :: "WispReaperConfig option \<Rightarrow> bool" where
  "IsPatrolEnabled config = (case config of None \<Rightarrow> False | Some c \<Rightarrow> Enabled c)"

text \<open>
  Modelled from the spec: the regular expression \<^verbatim>\<open>validDBName\<close>, which is not among the
  sources.  A database name is a non-empty run of letters, digits and underscores.
\<close>

definition ident_chars :: string where
  "ident_chars = ''abcdefghijklmnopqrstuvwxyzABCDEFGHIJKLMNOPQRSTUVWXYZ0123456789_''"

definition validDBName :: "string \<Rightarrow> bool" where
  "validDBName s = (s \<noteq> [] \<and> list_all (\<lambda>c. c \<in> set ident_chars) s)"

definition discoverDoltDatabases :: "string list" where
  "discoverDoltDatabases = [''hq'', ''beads'', ''gastown'']"

subsection \<open>Tables\<close>

text \<open>
  The columns the statements of the reaper read or write.  \<^verbatim>\<open>closed_at\<close> and
  \<^verbatim>\<open>wisp_type\<close> may be NULL; a comparison with NULL is not true.  The auxiliary tables
  are rows keyed by \<^verbatim>\<open>issue_id\<close>; for the label tables the value is the label.
\<close>

record wisp =
  w_id :: string
  w_status :: string
  w_created_at :: int
  w_closed_at :: "int option"
  w_wisp_type :: "string option"

record dep_row =
  d_issue_id :: string
  d_depends_on_id :: string
  d_type :: string

record aux_row =
  a_issue_id :: string
  a_value :: string

record issue =
  i_id :: string
  i_status :: string
  i_updated_at :: int
  i_closed_at :: "int option"
  i_priority :: int
  i_issue_type :: string

text \<open>
  The statements a step sends.  Which of them the server answers with an error is part
  of the environment, \<open>fails\<close>; a failed statement changes nothing.
\<close>

datatype stmt =
    CountEligible | CountOpen | SetAutocommit | CloseStale | DoltCommit
  | Digest | SelectBatch | DeleteAux string | DeletePrimary
  | CountMail | CountStale | AutoClose

record database =
  wisps :: "wisp list"
  wisp_dependencies :: "dep_row list"
  wisp_labels :: "aux_row list"
  wisp_comments :: "aux_row list"
  wisp_events :: "aux_row list"
  issues :: "issue list"
  labels :: "aux_row list"
  comments :: "aux_row list"
  events :: "aux_row list"
  dependencies :: "dep_row list"
  commits :: "string list"
  fails :: "stmt \<Rightarrow> bool"

subsection \<open>The parent-closure predicate\<close>

text \<open>
  \<^verbatim>\<open>parentCheckWhere\<close> for the row \<open>w\<close>: no parent-child row has \<^verbatim>\<open>issue_id = w.id\<close>,
  or one such row joins a wisp with status closed on \<^verbatim>\<open>depends_on_id\<close>.
\<close>

definition has_parent_row :: "database \<Rightarrow> wisp \<Rightarrow> bool" where
  "has_parent_row db w =
     list_ex (\<lambda>wd. d_issue_id wd = w_id w \<and> d_type wd = ''parent-child'') (wisp_dependencies db)"

definition has_closed_parent :: "database \<Rightarrow> wisp \<Rightarrow> bool" where
  "has_closed_parent db w =
     list_ex (\<lambda>wd. d_issue_id wd = w_id w \<and> d_type wd = ''parent-child''
                  \<and> list_ex (\<lambda>parent. w_id parent = d_depends_on_id wd
                                        \<and> w_status parent = ''closed'') (wisps db))
       (wisp_dependencies db)"

definition parentCheckWhere :: "database \<Rightarrow> wisp \<Rightarrow> bool" where
  "parentCheckWhere db w = (\<not> has_parent_row db w \<or> has_closed_parent db w)"

definition is_open_wisp :: "wisp \<Rightarrow> bool" where
  "is_open_wisp w = (w_status w \<in> set [''open'', ''hooked'', ''in_progress''])"

subsection \<open>Reap\<close>

text \<open>The \<^verbatim>\<open>whereClause\<close> of \<^verbatim>\<open>reapWispsInDB\<close>, with the cutoff for its placeholder.\<close>

definition reap_where :: "database \<Rightarrow> int \<Rightarrow> wisp \<Rightarrow> bool" where
  "reap_where db cutoff w =
     (is_open_wisp w \<and> w_created_at w < cutoff \<and> parentCheckWhere db w)"

text \<open>
  The UPDATE, as one statement: the WHERE clause of every row is evaluated on the table
  as it is before the statement.
\<close>

definition close_stale :: "database \<Rightarrow> int \<Rightarrow> int \<Rightarrow> database" where
  "close_stale db cutoff now =
     db\<lparr>wisps := map (\<lambda>w. if reap_where db cutoff w
                           then w\<lparr>w_status := ''closed'', w_closed_at := Some now\<rparr> else w)
                   (wisps db)\<rparr>"

definition dolt_commit :: "database \<Rightarrow> string \<Rightarrow> database" where
  "dolt_commit db msg =
     (if fails db DoltCommit then db else db\<lparr>commits := commits db @ [msg]\<rparr>)"

text \<open>The result is (reaped, open, error) and the database afterwards.\<close>

definition reapWispsInDB :: "string \<Rightarrow> int \<Rightarrow> int \<Rightarrow> bool \<Rightarrow> database
    \<Rightarrow> (nat \<times> nat \<times> string option) \<times> database" where
  "reapWispsInDB dbName cutoff now dryRun db =
     (if dryRun then
        (if fails db CountEligible then ((0, 0, Some ''dry-run count stale wisps''), db)
         else
           let wouldReap = length (filter (reap_where db cutoff) (wisps db)) in
           if fails db CountOpen then ((wouldReap, 0, Some ''count open wisps''), db)
           else ((wouldReap, length (filter is_open_wisp (wisps db)), None), db))
      else if fails db SetAutocommit then ((0, 0, Some ''disable autocommit''), db)
      else if fails db CloseStale then ((0, 0, Some ''close stale wisps''), db)
      else
        let reaped = length (filter (reap_where db cutoff) (wisps db));
            db1 = close_stale db cutoff now;
            db2 = (if reaped > 0
                   then dolt_commit db1
                          (''reaper: close '' @ show_nat reaped @ '' stale wisps in '' @ dbName)
                   else db1)
        in if fails db CountOpen then ((reaped, 0, Some ''count open wisps''), db2)
           else ((reaped, length (filter is_open_wisp (wisps db2)), None), db2))"

subsection \<open>Batched delete\<close>

definition delete_aux :: "string \<Rightarrow> string list \<Rightarrow> database \<Rightarrow> database" where
  "delete_aux tbl ids db =
     (if fails db (DeleteAux tbl) then db
      else if tbl = ''wisp_labels''
        then db\<lparr>wisp_labels := filter (\<lambda>r. a_issue_id r \<notin> set ids) (wisp_labels db)\<rparr>
      else if tbl = ''wisp_comments''
        then db\<lparr>wisp_comments := filter (\<lambda>r. a_issue_id r \<notin> set ids) (wisp_comments db)\<rparr>
      else if tbl = ''wisp_events''
        then db\<lparr>wisp_events := filter (\<lambda>r. a_issue_id r \<notin> set ids) (wisp_events db)\<rparr>
      else if tbl = ''wisp_dependencies''
        then db\<lparr>wisp_dependencies := filter (\<lambda>r. d_issue_id r \<notin> set ids) (wisp_dependencies db)\<rparr>
      else if tbl = ''labels''
        then db\<lparr>labels := filter (\<lambda>r. a_issue_id r \<notin> set ids) (labels db)\<rparr>
      else if tbl = ''comments''
        then db\<lparr>comments := filter (\<lambda>r. a_issue_id r \<notin> set ids) (comments db)\<rparr>
      else if tbl = ''events''
        then db\<lparr>events := filter (\<lambda>r. a_issue_id r \<notin> set ids) (events db)\<rparr>
      else if tbl = ''dependencies''
        then db\<lparr>dependencies := filter (\<lambda>r. d_issue_id r \<notin> set ids) (dependencies db)\<rparr>
      else db)"

definition delete_primary :: "string \<Rightarrow> string list \<Rightarrow> database \<Rightarrow> database" where
  "delete_primary tbl ids db =
     (if tbl = ''wisps'' then db\<lparr>wisps := filter (\<lambda>w. w_id w \<notin> set ids) (wisps db)\<rparr>
      else if tbl = ''issues'' then db\<lparr>issues := filter (\<lambda>i. i_id i \<notin> set ids) (issues db)\<rparr>
      else db)"

definition primary_rows :: "database \<Rightarrow> nat" where
  "primary_rows db = length (wisps db) + length (issues db)"

text \<open>
  \<^verbatim>\<open>batchDeleteRows\<close>.  \<open>idQuery\<close> is the SELECT with its LIMIT, run on the current
  state.  A failed auxiliary DELETE is logged and passed over.  The loop ends when the
  SELECT returns nothing; should a primary DELETE remove no row, the next iterations
  would repeat it unchanged until the context deadline of two minutes cuts the SELECT
  off, which is the error returned here.
\<close>

definition delete_aux_tables :: "string list \<Rightarrow> string list \<Rightarrow> database \<Rightarrow> database" where
  "delete_aux_tables auxTables ids db = foldl (\<lambda>d tbl. delete_aux tbl ids d) db auxTables"

definition delete_batch :: "string \<Rightarrow> string list \<Rightarrow> string list \<Rightarrow> database \<Rightarrow> database" where
  "delete_batch primaryTable auxTables ids db =
     delete_primary primaryTable ids (delete_aux_tables auxTables ids db)"

function batchDeleteRows :: "(database \<Rightarrow> string list) \<Rightarrow> string \<Rightarrow> string list
    \<Rightarrow> database \<Rightarrow> nat \<Rightarrow> (nat \<times> string option) \<times> database" where
  "batchDeleteRows idQuery primaryTable auxTables db totalDeleted =
     (if fails db SelectBatch then ((totalDeleted, Some ''select batch''), db)
      else if idQuery db = [] then ((totalDeleted, None), db)
      else if fails db DeletePrimary
        then ((totalDeleted, Some ''delete batch''), delete_aux_tables auxTables (idQuery db) db)
      else if primary_rows (delete_batch primaryTable auxTables (idQuery db) db) < primary_rows db
        then batchDeleteRows idQuery primaryTable auxTables
               (delete_batch primaryTable auxTables (idQuery db) db)
               (totalDeleted
                  + (primary_rows db
                     - primary_rows (delete_batch primaryTable auxTables (idQuery db) db)))
      else ((totalDeleted, Some ''select batch: context deadline exceeded''),
            delete_batch primaryTable auxTables (idQuery db) db))"
  by pat_completeness auto
termination
  by (relation "measure (\<lambda>(idQuery, primaryTable, auxTables, db, totalDeleted). primary_rows db)")
    auto

declare batchDeleteRows.simps [simp del]

subsection \<open>Purge of closed wisps\<close>

definition purge_where :: "database \<Rightarrow> int \<Rightarrow> wisp \<Rightarrow> bool" where
  "purge_where db deleteCutoff w =
     (w_status w = ''closed''
      \<and> (case w_closed_at w of None \<Rightarrow> False | Some t \<Rightarrow> t < deleteCutoff)
      \<and> parentCheckWhere db w)"

definition wisp_idQuery :: "int \<Rightarrow> database \<Rightarrow> string list" where
  "wisp_idQuery deleteCutoff db =
     map w_id (take deleteBatchSize (filter (purge_where db deleteCutoff) (wisps db)))"

definition wisp_auxTables :: "string list" where
  "wisp_auxTables = [''wisp_labels'', ''wisp_comments'', ''wisp_events'', ''wisp_dependencies'']"

text \<open>
  The digest query groups the eligible rows by type for the log; its total is their
  number.
\<close>

definition purgeClosedWispsInDB :: "string \<Rightarrow> int \<Rightarrow> bool \<Rightarrow> database
    \<Rightarrow> (nat \<times> string option) \<times> database" where
  "purgeClosedWispsInDB dbName deleteCutoff dryRun db =
     (if fails db Digest then ((0, Some ''digest query''), db)
      else
        let digestTotal = length (filter (purge_where db deleteCutoff) (wisps db)) in
        if digestTotal = 0 then ((0, None), db)
        else if dryRun then ((digestTotal, None), db)
        else if fails db SetAutocommit then ((0, Some ''disable autocommit''), db)
        else
          (case batchDeleteRows (wisp_idQuery deleteCutoff) ''wisps'' wisp_auxTables db 0 of
             ((totalDeleted, Some e), db1) \<Rightarrow> ((totalDeleted, Some e), db1)
           | ((totalDeleted, None), db1) \<Rightarrow>
               ((totalDeleted, None),
                if totalDeleted > 0
                then dolt_commit db1
                       (''reaper: purge '' @ show_nat totalDeleted @ '' closed wisps from '' @ dbName)
                else db1)))"

subsection \<open>Purge of old mail\<close>

definition mail_where :: "int \<Rightarrow> issue \<Rightarrow> bool" where
  "mail_where mailCutoff i =
     (i_status i = ''closed''
      \<and> (case i_closed_at i of None \<Rightarrow> False | Some t \<Rightarrow> t < mailCutoff))"

definition is_message_label :: "issue \<Rightarrow> aux_row \<Rightarrow> bool" where
  "is_message_label i l = (a_issue_id l = i_id i \<and> a_value l = ''gt:message'')"

text \<open>The count uses \<^verbatim>\<open>id IN (SELECT issue_id ...)\<close>, the id query an inner join.\<close>

definition mail_count :: "int \<Rightarrow> database \<Rightarrow> nat" where
  "mail_count mailCutoff db =
     length (filter (\<lambda>i. mail_where mailCutoff i \<and> list_ex (is_message_label i) (labels db))
               (issues db))"

definition mail_idQuery :: "int \<Rightarrow> database \<Rightarrow> string list" where
  "mail_idQuery mailCutoff db =
     take deleteBatchSize
       (concat (map (\<lambda>i. map (\<lambda>l. i_id i) (filter (is_message_label i) (labels db)))
                  (filter (mail_where mailCutoff) (issues db))))"

definition mail_auxTables :: "string list" where
  "mail_auxTables = [''labels'', ''comments'', ''events'', ''dependencies'']"

definition purgeOldMailInDB :: "string \<Rightarrow> int \<Rightarrow> database \<Rightarrow> (nat \<times> string option) \<times> database" where
  "purgeOldMailInDB dbName mailCutoff db =
     (if fails db CountMail then ((0, Some ''count mail''), db)
      else if mail_count mailCutoff db = 0 then ((0, None), db)
      else if fails db SetAutocommit then ((0, Some ''disable autocommit''), db)
      else
        (case batchDeleteRows (mail_idQuery mailCutoff) ''issues'' mail_auxTables db 0 of
           ((totalDeleted, Some e), db1) \<Rightarrow> ((totalDeleted, Some e), db1)
         | ((totalDeleted, None), db1) \<Rightarrow>
             ((totalDeleted, None),
              if totalDeleted > 0
              then dolt_commit db1
                     (''reaper: purge '' @ show_nat totalDeleted @ '' old mail from '' @ dbName)
              else db1)))"

subsection \<open>Auto-close of stale issues\<close>

definition is_open_issue :: "issue \<Rightarrow> bool" where
  "is_open_issue i = (i_status i \<in> set [''open'', ''in_progress''])"

text \<open>
  The two subqueries: the ids that depend on an open issue, and the ids an open issue
  depends on.
\<close>

definition blocked_ids :: "database \<Rightarrow> string list" where
  "blocked_ids db =
     remdups (map d_issue_id
       (filter (\<lambda>d. list_ex (\<lambda>dep. d_depends_on_id d = i_id dep \<and> is_open_issue dep) (issues db))
          (dependencies db)))"

definition blocking_ids :: "database \<Rightarrow> string list" where
  "blocking_ids db =
     remdups (map d_depends_on_id
       (filter (\<lambda>d. list_ex (\<lambda>blocker. d_issue_id d = i_id blocker \<and> is_open_issue blocker)
                      (issues db))
          (dependencies db)))"

definition stale_where :: "database \<Rightarrow> int \<Rightarrow> issue \<Rightarrow> bool" where
  "stale_where db staleCutoff i =
     (is_open_issue i
      \<and> i_updated_at i < staleCutoff
      \<and> i_priority i > 1
      \<and> i_issue_type i \<noteq> ''epic''
      \<and> i_id i \<notin> set (blocked_ids db)
      \<and> i_id i \<notin> set (blocking_ids db))"

definition close_stale_issues :: "database \<Rightarrow> int \<Rightarrow> int \<Rightarrow> database" where
  "close_stale_issues db staleCutoff now =
     db\<lparr>issues := map (\<lambda>i. if stale_where db staleCutoff i
                            then i\<lparr>i_status := ''closed'', i_closed_at := Some now\<rparr> else i)
                    (issues db)\<rparr>"

definition autoCloseStaleIssuesInDB :: "string \<Rightarrow> int \<Rightarrow> int \<Rightarrow> bool \<Rightarrow> database
    \<Rightarrow> (nat \<times> string option) \<times> database" where
  "autoCloseStaleIssuesInDB dbName staleCutoff now dryRun db =
     (if fails db CountStale then ((0, Some ''count stale issues''), db)
      else
        let count = length (filter (stale_where db staleCutoff) (issues db)) in
        if count = 0 then ((0, None), db)
        else if dryRun then ((count, None), db)
        else if fails db SetAutocommit then ((0, Some ''disable autocommit''), db)
        else if fails db AutoClose then ((0, Some ''auto-close stale issues''), db)
        else
          let closed = length (filter (stale_where db staleCutoff) (issues db));
              db1 = close_stale_issues db staleCutoff now
          in ((closed, None),
              if closed > 0
              then dolt_commit db1
                     (''reaper: auto-close '' @ show_nat closed @ '' stale issues in '' @ dbName)
              else db1))"

subsection \<open>The cycle\<close>

record reaperCycle =
  rc_databases :: "string list"
  rc_maxAge :: int
  rc_deleteAge :: int
  rc_dryRun :: bool
  rc_cutoff :: int
  rc_deleteCutoff :: int
  totalReaped :: nat
  totalOpen :: nat
  totalPurged :: nat
  totalMailPurged :: nat
  totalAutoClosed :: nat

text \<open>
  What a run acts on: the databases of the server by name (\<open>None\<close> where the server
  has no such database, so that the first statement of a step fails), the names handed
  to \<^verbatim>\<open>reaperOpenDB\<close> in order, and the steps recorded on the tracking molecule, each
  closed (\<open>None\<close>) or failed with a reason.
\<close>

record Daemon =
  dbs :: "string \<Rightarrow> database option"
  connections :: "string list"
  mol :: "(string \<times> string option) list"

definition closeStep :: "Daemon \<Rightarrow> string \<Rightarrow> Daemon" where
  "closeStep d step = d\<lparr>mol := mol d @ [(step, None)]\<rparr>"

definition failStep :: "Daemon \<Rightarrow> string \<Rightarrow> string \<Rightarrow> Daemon" where
  "failStep d step reason = d\<lparr>mol := mol d @ [(step, Some reason)]\<rparr>"

definition finish_step :: "Daemon \<Rightarrow> string \<Rightarrow> nat \<Rightarrow> string \<Rightarrow> Daemon" where
  "finish_step d step errs what =
     (if errs > 0 then failStep d step (show_nat errs @ '' databases had '' @ what @ '' errors'')
      else closeStep d step)"

text \<open>Open a connection to one database and run a step function on it.\<close>

definition with_db :: "Daemon \<Rightarrow> string \<Rightarrow> 'r \<Rightarrow> (database \<Rightarrow> 'r \<times> database) \<Rightarrow> 'r \<times> Daemon" where
  "with_db d dbName unreachable f =
     (case dbs d dbName of
        None \<Rightarrow> (unreachable, d\<lparr>connections := connections d @ [dbName]\<rparr>)
      | Some db \<Rightarrow>
          (case f db of
             (r, db') \<Rightarrow>
               (r, d\<lparr>dbs := (dbs d)(dbName \<mapsto> db'), connections := connections d @ [dbName]\<rparr>)))"

fun reaperReap_loop :: "string list \<Rightarrow> int \<Rightarrow> reaperCycle \<Rightarrow> nat \<Rightarrow> Daemon
    \<Rightarrow> reaperCycle \<times> nat \<times> Daemon" where
  "reaperReap_loop [] now rc reapErrors d = (rc, reapErrors, d)"
| "reaperReap_loop (dbName # rest) now rc reapErrors d =
     (if \<not> validDBName dbName then reaperReap_loop rest now rc reapErrors d
      else
        (case with_db d dbName (0, 0, Some ''connect'')
                (reapWispsInDB dbName (rc_cutoff rc) now (rc_dryRun rc)) of
           ((reaped, opn, Some e), d') \<Rightarrow> reaperReap_loop rest now rc (reapErrors + 1) d'
         | ((reaped, opn, None), d') \<Rightarrow>
             reaperReap_loop rest now
               (rc\<lparr>totalReaped := totalReaped rc + reaped, totalOpen := totalOpen rc + opn\<rparr>)
               reapErrors d'))"

definition reaperReap :: "int \<Rightarrow> reaperCycle \<Rightarrow> Daemon \<Rightarrow> reaperCycle \<times> Daemon" where
  "reaperReap now rc d =
     (case reaperReap_loop (rc_databases rc) now rc 0 d of
        (rc', reapErrors, d') \<Rightarrow> (rc', finish_step d' ''reap'' reapErrors ''reap''))"

fun purge_loop :: "string list \<Rightarrow> reaperCycle \<Rightarrow> nat \<Rightarrow> Daemon \<Rightarrow> reaperCycle \<times> nat \<times> Daemon" where
  "purge_loop [] rc purgeErrors d = (rc, purgeErrors, d)"
| "purge_loop (dbName # rest) rc purgeErrors d =
     (if \<not> validDBName dbName then purge_loop rest rc purgeErrors d
      else
        (case with_db d dbName (0, Some ''connect'')
                (purgeClosedWispsInDB dbName (rc_deleteCutoff rc) (rc_dryRun rc)) of
           ((purged, Some e), d') \<Rightarrow> purge_loop rest rc (purgeErrors + 1) d'
         | ((purged, None), d') \<Rightarrow>
             purge_loop rest (rc\<lparr>totalPurged := totalPurged rc + purged\<rparr>) purgeErrors d'))"

fun mail_loop :: "string list \<Rightarrow> int \<Rightarrow> reaperCycle \<Rightarrow> Daemon \<Rightarrow> reaperCycle \<times> Daemon" where
  "mail_loop [] mailCutoff rc d = (rc, d)"
| "mail_loop (dbName # rest) mailCutoff rc d =
     (if \<not> validDBName dbName then mail_loop rest mailCutoff rc d
      else
        (case with_db d dbName (0, Some ''connect'') (purgeOldMailInDB dbName mailCutoff) of
           ((purged, Some e), d') \<Rightarrow> mail_loop rest mailCutoff rc d'
         | ((purged, None), d') \<Rightarrow>
             mail_loop rest mailCutoff (rc\<lparr>totalMailPurged := totalMailPurged rc + purged\<rparr>) d'))"

definition reaperPurge :: "int \<Rightarrow> reaperCycle \<Rightarrow> Daemon \<Rightarrow> reaperCycle \<times> Daemon" where
  "reaperPurge now rc d =
     (case purge_loop (rc_databases rc) rc 0 d of
        (rc1, purgeErrors, d1) \<Rightarrow>
          (case mail_loop (rc_databases rc) (now - defaultMailDeleteAge) rc1 d1 of
             (rc2, d2) \<Rightarrow> (rc2, finish_step d2 ''purge'' purgeErrors ''purge'')))"

fun autoClose_loop :: "string list \<Rightarrow> int \<Rightarrow> int \<Rightarrow> reaperCycle \<Rightarrow> nat \<Rightarrow> Daemon
    \<Rightarrow> reaperCycle \<times> nat \<times> Daemon" where
  "autoClose_loop [] staleCutoff now rc autoCloseErrors d = (rc, autoCloseErrors, d)"
| "autoClose_loop (dbName # rest) staleCutoff now rc autoCloseErrors d =
     (if \<not> validDBName dbName then autoClose_loop rest staleCutoff now rc autoCloseErrors d
      else
        (case with_db d dbName (0, Some ''connect'')
                (autoCloseStaleIssuesInDB dbName staleCutoff now (rc_dryRun rc)) of
           ((closed, Some e), d') \<Rightarrow>
             autoClose_loop rest staleCutoff now rc (autoCloseErrors + 1) d'
         | ((closed, None), d') \<Rightarrow>
             autoClose_loop rest staleCutoff now
               (rc\<lparr>totalAutoClosed := totalAutoClosed rc + closed\<rparr>) autoCloseErrors d'))"

definition reaperAutoClose :: "int \<Rightarrow> reaperCycle \<Rightarrow> Daemon \<Rightarrow> reaperCycle \<times> Daemon" where
  "reaperAutoClose now rc d =
     (case autoClose_loop (rc_databases rc) (now - defaultStaleIssueAge) now rc 0 d of
        (rc', autoCloseErrors, d') \<Rightarrow>
          (rc', finish_step d' ''auto-close'' autoCloseErrors ''auto-close''))"

definition reaperReport :: "reaperCycle \<Rightarrow> Daemon \<Rightarrow> Daemon" where
  "reaperReport rc d = closeStep d ''report''"

text \<open>
  \<^verbatim>\<open>reapWisps\<close>.  The result is the cycle record, \<open>None\<close> when the patrol is disabled
  or no database is found, and the daemon's world afterwards.
\<close>

definition reapWisps :: "(string \<Rightarrow> int option) \<Rightarrow> WispReaperConfig option \<Rightarrow> int \<Rightarrow> Daemon
    \<Rightarrow> reaperCycle option \<times> Daemon" where
  "reapWisps ParseDuration patrolConfig now d =
     (case patrolConfig of
        None \<Rightarrow> (None, d)
      | Some config \<Rightarrow>
          if \<not> IsPatrolEnabled patrolConfig then (None, d)
          else
            let maxAge = wispReaperMaxAge ParseDuration patrolConfig;
                deleteAge = wispDeleteAge ParseDuration patrolConfig;
                databases = (if Databases config = [] then discoverDoltDatabases
                             else Databases config);
                rc = \<lparr>rc_databases = databases, rc_maxAge = maxAge, rc_deleteAge = deleteAge,
                      rc_dryRun = DryRun config, rc_cutoff = now - maxAge,
                      rc_deleteCutoff = now - deleteAge,
                      totalReaped = 0, totalOpen = 0, totalPurged = 0, totalMailPurged = 0,
                      totalAutoClosed = 0\<rparr>
            in if databases = [] then (None, failStep d ''scan'' ''no databases found'')
               else
                 (case reaperReap now rc (closeStep d ''scan'') of
                    (rc1, d1) \<Rightarrow>
                      (case reaperPurge now rc1 d1 of
                         (rc2, d2) \<Rightarrow>
                           (case reaperAutoClose now rc2 d2 of
                              (rc3, d3) \<Rightarrow> (Some rc3, reaperReport rc3 d3)))))"

text \<open>
  The mail purge step as internal/daemon/wisp_reaper.go has it: the same loop, with
  the cutoff taken from that file's constant.
\<close>

definition mail_purge_step_wisp_reaper_go :: "int \<Rightarrow> reaperCycle \<Rightarrow> Daemon \<Rightarrow> reaperCycle \<times> Daemon" where
  "mail_purge_step_wisp_reaper_go now rc d =
     mail_loop (rc_databases rc) (now - defaultMailDeleteAge_wisp_reaper_go) rc d"

subsection \<open>Relations between the states before and after a step\<close>

text \<open>
  A step over the databases \<open>names\<close> opens one connection per valid name, in order,
  and leaves every database outside \<open>names\<close> as it was.
\<close>

definition touches_only :: "string list \<Rightarrow> Daemon \<Rightarrow> Daemon \<Rightarrow> bool" where
  "touches_only names d d' =
     (connections d' = connections d @ filter validDBName names
      \<and> (\<forall>m. m \<notin> set names \<longrightarrow> dbs d' m = dbs d m))"

text \<open>
  What a purge of old mail with cutoff \<open>c\<close> may do to a database: remove issue and
  label rows, and issue rows only with the id of a closed issue, closed before \<open>c\<close>, that
  carries the label \<^verbatim>\<open>gt:message\<close>.  \<open>each_db\<close> lifts a relation on databases to the
  server.
\<close>

definition purged_only_mail :: "int \<Rightarrow> database \<Rightarrow> database \<Rightarrow> bool" where
  "purged_only_mail c db db' =
     (set (issues db') \<subseteq> set (issues db) \<and> set (labels db') \<subseteq> set (labels db)
      \<and> (\<forall>i\<in>set (issues db) - set (issues db').
            \<exists>j\<in>set (issues db). i_id j = i_id i \<and> mail_where c j
                \<and> (\<exists>l\<in>set (labels db). is_message_label j l)))"

definition each_db :: "(database \<Rightarrow> database \<Rightarrow> bool) \<Rightarrow> Daemon \<Rightarrow> Daemon \<Rightarrow> bool" where
  "each_db R d d' = (\<forall>n db. dbs d n = Some db \<longrightarrow> (\<exists>db'. dbs d' n = Some db' \<and> R db db'))"

subsection \<open>Databases used in the scenarios\<close>

definition Day :: int where
  "Day = 24 * Hour"

definition empty_db :: database where
  "empty_db =
     \<lparr>wisps = [], wisp_dependencies = [], wisp_labels = [], wisp_comments = [],
      wisp_events = [], issues = [], labels = [], comments = [], events = [],
      dependencies = [], commits = [], fails = (\<lambda>_. False)\<rparr>"

text \<open>
  A database holding one message, closed eight days before day 100, and a server that
  has it as \<^verbatim>\<open>hq\<close> next to an empty database \<^verbatim>\<open>other\<close>.
\<close>

definition mail_db :: database where
  "mail_db =
     empty_db\<lparr>issues := [\<lparr>i_id = ''m1'', i_status = ''closed'', i_updated_at = 92 * Day,
                          i_closed_at = Some (92 * Day), i_priority = 2,
                          i_issue_type = ''message''\<rparr>],
              labels := [\<lparr>a_issue_id = ''m1'', a_value = ''gt:message''\<rparr>]\<rparr>"

definition mail_town :: Daemon where
  "mail_town =
     \<lparr>dbs = (\<lambda>_. None)(''hq'' \<mapsto> mail_db, ''other'' \<mapsto> empty_db),
      connections = [], mol = []\<rparr>"

definition fresh_cycle :: "string list \<Rightarrow> reaperCycle" where
  "fresh_cycle names =
     \<lparr>rc_databases = names, rc_maxAge = defaultWispMaxAge, rc_deleteAge = defaultWispDeleteAge,
      rc_dryRun = False, rc_cutoff = 100 * Day - defaultWispMaxAge,
      rc_deleteCutoff = 100 * Day - defaultWispDeleteAge,
      totalReaped = 0, totalOpen = 0, totalPurged = 0, totalMailPurged = 0,
      totalAutoClosed = 0\<rparr>"

definition reaper_config :: "bool \<Rightarrow> string list \<Rightarrow> WispReaperConfig" where
  "reaper_config dry names =
     \<lparr>Enabled = True, DryRun = dry, IntervalStr = [], MaxAgeStr = [], DeleteAgeStr = [],
      Databases = names\<rparr>"

text \<open>
  The auto-close scenario of the spec, all issues open and forty days without update
  on day 100: A has priority 0, B is blocked by C, an epic E, and D is free.
\<close>

definition stale_db :: database where
  "stale_db =
     empty_db\<lparr>issues :=
        [\<lparr>i_id = ''A'', i_status = ''open'', i_updated_at = 60 * Day, i_closed_at = None,
          i_priority = 0, i_issue_type = ''task''\<rparr>,
         \<lparr>i_id = ''B'', i_status = ''open'', i_updated_at = 60 * Day, i_closed_at = None,
          i_priority = 3, i_issue_type = ''task''\<rparr>,
         \<lparr>i_id = ''C'', i_status = ''open'', i_updated_at = 60 * Day, i_closed_at = None,
          i_priority = 3, i_issue_type = ''task''\<rparr>,
         \<lparr>i_id = ''D'', i_status = ''in_progress'', i_updated_at = 60 * Day, i_closed_at = None,
          i_priority = 3, i_issue_type = ''task''\<rparr>,
         \<lparr>i_id = ''E'', i_status = ''open'', i_updated_at = 60 * Day, i_closed_at = None,
          i_priority = 3, i_issue_type = ''epic''\<rparr>],
       dependencies := [\<lparr>d_issue_id = ''B'', d_depends_on_id = ''C'', d_type = ''blocks''\<rparr>]\<rparr>"

text \<open>
  The reap scenario of the spec on day 100: W1 and W2 are open and two days old, W1 a
  child of the open wisp P, W2 an orphan; W3 was closed ten days ago under the closed
  parent Q, itself closed two days ago.
\<close>

definition wisp_db :: database where
  "wisp_db =
     empty_db\<lparr>wisps :=
        [\<lparr>w_id = ''P'', w_status = ''open'', w_created_at = 99 * Day + 12 * Hour,
          w_closed_at = None, w_wisp_type = None\<rparr>,
         \<lparr>w_id = ''W1'', w_status = ''open'', w_created_at = 98 * Day, w_closed_at = None,
          w_wisp_type = Some ''step''\<rparr>,
         \<lparr>w_id = ''W2'', w_status = ''open'', w_created_at = 98 * Day, w_closed_at = None,
          w_wisp_type = Some ''step''\<rparr>,
         \<lparr>w_id = ''Q'', w_status = ''closed'', w_created_at = 80 * Day,
          w_closed_at = Some (98 * Day), w_wisp_type = None\<rparr>,
         \<lparr>w_id = ''W3'', w_status = ''closed'', w_created_at = 80 * Day,
          w_closed_at = Some (90 * Day), w_wisp_type = Some ''step''\<rparr>],
       wisp_dependencies :=
        [\<lparr>d_issue_id = ''W1'', d_depends_on_id = ''P'', d_type = ''parent-child''\<rparr>,
         \<lparr>d_issue_id = ''W3'', d_depends_on_id = ''Q'', d_type = ''parent-child''\<rparr>]\<rparr>"

section \<open>Properties of the deduplicator\<close>

lemma map_index_update_same: "map_index (Mapping.update k True m) k"
  by (simp add: map_index_def)

lemma AlreadyProcessed_keeps_seen:
  "map_index (processed d) k \<Longrightarrow> map_index (processed (snd (AlreadyProcessed d i))) k"
  by (cases "i = k") (auto simp: AlreadyProcessed_def map_index_def lookup_update')

lemma calls_keeps_seen:
  "map_index (processed d) k \<Longrightarrow> map_index (processed (calls d is)) k"
proof (induction "is" arbitrary: d)
  case Nil
  then show ?case by simp
next
  case (Cons i "is")
  from Cons.prems have "map_index (processed (snd (AlreadyProcessed d i))) k"
    by (rule AlreadyProcessed_keeps_seen)
  then show ?case using Cons.IH by simp
qed

lemma AlreadyProcessed_marks:
  "k \<noteq> [] \<Longrightarrow> map_index (processed (snd (AlreadyProcessed d k))) k"
  by (simp add: AlreadyProcessed_def map_index_update_same)

text \<open>
  Claim C9.  \<^verbatim>\<open>AlreadyProcessed("")\<close> returns false and leaves the deduplicator as it
  was.  For a non-empty id that is not yet a key of the map, the call returns false and
  the key set afterwards is the old one with the id inserted.  Once a non-empty id has
  been passed to \<^verbatim>\<open>AlreadyProcessed\<close>, then after any further sequence of calls on the
  same deduplicator a call with that id returns true and leaves the state, and hence
  \<^verbatim>\<open>Size()\<close>, unchanged.
\<close>

theorem AlreadyProcessed_check_and_set:
  "AlreadyProcessed d [] = (False, d)
   \<and> (messageID \<noteq> [] \<and> messageID \<notin> Mapping.keys (processed d) \<longrightarrow>
        fst (AlreadyProcessed d messageID) = False
        \<and> Mapping.keys (processed (snd (AlreadyProcessed d messageID)))
            = insert messageID (Mapping.keys (processed d)))
   \<and> (messageID \<noteq> [] \<longrightarrow>
        (let d2 = calls (snd (AlreadyProcessed d messageID)) others
         in AlreadyProcessed d2 messageID = (True, d2)
            \<and> Size (snd (AlreadyProcessed d2 messageID)) = Size d2))"
proof (intro conjI impI)
  show "AlreadyProcessed d [] = (False, d)"
    by (simp add: AlreadyProcessed_def)
next
  assume a: "messageID \<noteq> [] \<and> messageID \<notin> Mapping.keys (processed d)"
  then have "Mapping.lookup (processed d) messageID = None"
    by (simp add: keys_is_none_rep Option.is_none_def)
  then have n: "\<not> map_index (processed d) messageID"
    by (simp add: map_index_def)
  with a show "fst (AlreadyProcessed d messageID) = False"
    by (simp add: AlreadyProcessed_def)
  from a n show "Mapping.keys (processed (snd (AlreadyProcessed d messageID)))
      = insert messageID (Mapping.keys (processed d))"
    by (simp add: AlreadyProcessed_def)
next
  assume ne: "messageID \<noteq> []"
  define d2 where "d2 = calls (snd (AlreadyProcessed d messageID)) others"
  have "map_index (processed d2) messageID"
    unfolding d2_def by (rule calls_keeps_seen) (rule AlreadyProcessed_marks [OF ne])
  with ne have "AlreadyProcessed d2 messageID = (True, d2)"
    by (simp add: AlreadyProcessed_def)
  then show "let d2 = calls (snd (AlreadyProcessed d messageID)) others
     in AlreadyProcessed d2 messageID = (True, d2)
        \<and> Size (snd (AlreadyProcessed d2 messageID)) = Size d2"
    by (simp add: d2_def)
qed

theorem AlreadyProcessed_check_and_set_witness:
  "''m1'' \<noteq> [] \<and> ''m1'' \<notin> Mapping.keys (processed (NewMessageDeduplicator 0))
   \<and> fst (AlreadyProcessed (NewMessageDeduplicator 0) ''m1'') = False
   \<and> Mapping.keys (processed (snd (AlreadyProcessed (NewMessageDeduplicator 0) ''m1''))) = {''m1''}
   \<and> fst (AlreadyProcessed
        (calls (snd (AlreadyProcessed (NewMessageDeduplicator 0) ''m1'')) [''m2'', []]) ''m1'')
   \<and> Size (calls (snd (AlreadyProcessed (NewMessageDeduplicator 0) ''m1'')) [''m2'', [], ''m1'']) = 2"
proof -
  have h: "''m1'' \<noteq> [] \<and> ''m1'' \<notin> Mapping.keys (processed (NewMessageDeduplicator 0))"
    by (simp add: NewMessageDeduplicator_def)
  have s: "Size (calls (snd (AlreadyProcessed (NewMessageDeduplicator 0) ''m1'')) [''m2'', [], ''m1'']) = 2"
    by (simp add: Size_def AlreadyProcessed_def NewMessageDeduplicator_def map_index_def
        Mapping.size_def lookup_update')
  show ?thesis
    using h s AlreadyProcessed_check_and_set
      [of "NewMessageDeduplicator 0" "''m1''" "[''m2'', []]"]
    by (simp add: NewMessageDeduplicator_def Let_def)
qed



section \<open>Properties of the mail drainer\<close>

lemma help_not_drainable:
  "prefix ''HELP:'' s \<or> prefix ''HANDOFF'' s \<Longrightarrow> \<not> isDrainableMessage s"
  by (auto simp: isDrainableMessage_def drainableSubjects_def prefix_def)

lemma fst_protocol_candidates:
  "fst ` set (protocol_candidates a c msgs)
     = {m \<in> set msgs. isDrainableMessage (Subject m) \<and> (a \<or> \<not> Timestamp m > c)}"
  by (auto simp: protocol_candidates_def image_image)

lemma fst_read_wisp_candidates:
  "fst ` set (read_wisp_candidates a c msgs)
     = {m \<in> set msgs. \<not> isDrainableMessage (Subject m) \<and> Wisp m \<and> Read m
                      \<and> (a \<or> Timestamp m < c)}"
  by (auto simp: read_wisp_candidates_def image_image)

lemma fst_drain_candidates:
  "fst ` set (drain_candidates a maxAge now msgs)
     = {m \<in> set msgs.
          (isDrainableMessage (Subject m) \<and> (a \<or> maxAge \<le> now - Timestamp m))
          \<or> (Wisp m \<and> Read m \<and> (a \<or> maxAge < now - Timestamp m))}"
  unfolding drain_candidates_def set_append image_Un
    fst_protocol_candidates fst_read_wisp_candidates
  by auto

text \<open>
  Claim C3, as the code has it.  A listed message is a drain candidate if and only if
  its subject has a drainable prefix and (\<^verbatim>\<open>--all\<close> is set or its timestamp is not after
  the cutoff, that is, its age is at least the threshold), or it is a read wisp and
  (\<^verbatim>\<open>--all\<close> is set or its age exceeds the threshold).
\<close>

theorem drain_candidate_iff:
  "msg \<in> set msgs \<Longrightarrow>
   msg \<in> fst ` set (drain_candidates mailDrainAll maxAge now msgs) \<longleftrightarrow>
     (isDrainableMessage (Subject msg) \<and> (mailDrainAll \<or> maxAge \<le> now - Timestamp msg))
     \<or> (Wisp msg \<and> Read msg \<and> (mailDrainAll \<or> maxAge < now - Timestamp msg))"
  by (simp add: fst_drain_candidates)

text \<open>
  The drain selection scenario of the spec: with the 30 minute default, of a completion
  notice aged 35 minutes, a help request aged 35 minutes and a swarm start aged 5
  minutes only the first is a candidate (times in seconds).
\<close>

theorem drain_candidate_iff_witness:
  "\<lparr>ID = ''1'', Subject = ''POLECAT_DONE x'', Timestamp = 7900, Read = False, Wisp = False\<rparr>
     \<in> set [\<lparr>ID = ''1'', Subject = ''POLECAT_DONE x'', Timestamp = 7900, Read = False, Wisp = False\<rparr>,
            \<lparr>ID = ''2'', Subject = ''HELP: halp'', Timestamp = 7900, Read = False, Wisp = False\<rparr>,
            \<lparr>ID = ''3'', Subject = ''SWARM_START'', Timestamp = 9700, Read = False, Wisp = False\<rparr>]
   \<and> \<lparr>ID = ''1'', Subject = ''POLECAT_DONE x'', Timestamp = 7900, Read = False, Wisp = False\<rparr>
     \<in> fst ` set (drain_candidates False 1800 10000
           [\<lparr>ID = ''1'', Subject = ''POLECAT_DONE x'', Timestamp = 7900, Read = False, Wisp = False\<rparr>,
            \<lparr>ID = ''2'', Subject = ''HELP: halp'', Timestamp = 7900, Read = False, Wisp = False\<rparr>,
            \<lparr>ID = ''3'', Subject = ''SWARM_START'', Timestamp = 9700, Read = False, Wisp = False\<rparr>])"
  using drain_candidate_iff [of
      "\<lparr>ID = ''1'', Subject = ''POLECAT_DONE x'', Timestamp = 7900, Read = False, Wisp = False\<rparr>"
      "[\<lparr>ID = ''1'', Subject = ''POLECAT_DONE x'', Timestamp = 7900, Read = False, Wisp = False\<rparr>,
        \<lparr>ID = ''2'', Subject = ''HELP: halp'', Timestamp = 7900, Read = False, Wisp = False\<rparr>,
        \<lparr>ID = ''3'', Subject = ''SWARM_START'', Timestamp = 9700, Read = False, Wisp = False\<rparr>]"
      False 1800 10000]
  by (simp add: isDrainableMessage_def drainableSubjects_def)

text \<open>
  The claim as written asks a read wisp to be aged even under \<^verbatim>\<open>--all\<close>, and a protocol
  message to be strictly older than the threshold.  With \<^verbatim>\<open>--all\<close> a read wisp five
  minutes old with an ordinary subject is selected; and without \<^verbatim>\<open>--all\<close> a protocol
  message exactly as old as the threshold is selected.
\<close>

theorem drain_candidate_counterexample:
  "(\<lparr>ID = ''1'', Subject = ''Status check'', Timestamp = 9700, Read = True, Wisp = True\<rparr>
      \<in> fst ` set (drain_candidates True 1800 10000
          [\<lparr>ID = ''1'', Subject = ''Status check'', Timestamp = 9700, Read = True, Wisp = True\<rparr>])
    \<and> \<not> (isDrainableMessage ''Status check'' \<and> (True \<or> (1800::int) < 10000 - 9700)
          \<or> (True \<and> True \<and> (1800::int) < 10000 - 9700)))
   \<and> (\<lparr>ID = ''2'', Subject = ''MERGED x'', Timestamp = 8200, Read = False, Wisp = False\<rparr>
      \<in> fst ` set (drain_candidates False 1800 10000
          [\<lparr>ID = ''2'', Subject = ''MERGED x'', Timestamp = 8200, Read = False, Wisp = False\<rparr>])
    \<and> \<not> (isDrainableMessage ''MERGED x'' \<and> (False \<or> (1800::int) < 10000 - 8200)
          \<or> (False \<and> False \<and> (1800::int) < 10000 - 8200)))"
  by (simp add: fst_drain_candidates isDrainableMessage_def drainableSubjects_def)

text \<open>
  Claim C4 at a concrete input.  The help text of the command lists \<^verbatim>\<open>HELP:*\<close> and
  \<^verbatim>\<open>HANDOFF\<close> as non-drainable and preserved, and \<^verbatim>\<open>isDrainableMessage\<close> is false for
  both subjects, so the protocol pass skips them.  The read-wisp pass has no subject
  test: a read wisp one hour old with either subject is selected with reason
  \<^verbatim>\<open>read-wisp\<close> and deleted by a run with the default flags.
\<close>

theorem help_handoff_deleted:
  "prefix ''HELP:'' ''HELP: stuck''
   \<and> \<not> isDrainableMessage ''HELP: stuck''
   \<and> drain_candidates False 1800 3600
        [\<lparr>ID = ''1'', Subject = ''HELP: stuck'', Timestamp = 0, Read = True, Wisp = True\<rparr>]
       = [(\<lparr>ID = ''1'', Subject = ''HELP: stuck'', Timestamp = 0, Read = True, Wisp = True\<rparr>,
           ''read-wisp'')]
   \<and> stored (snd (runMailDrain False False 1800 3600
        \<lparr>stored = [\<lparr>ID = ''1'', Subject = ''HELP: stuck'', Timestamp = 0, Read = True, Wisp = True\<rparr>],
         delete_fails = (\<lambda>_. False)\<rparr>)) = []
   \<and> prefix ''HANDOFF'' ''HANDOFF notes''
   \<and> \<not> isDrainableMessage ''HANDOFF notes''
   \<and> stored (snd (runMailDrain False False 1800 3600
        \<lparr>stored = [\<lparr>ID = ''2'', Subject = ''HANDOFF notes'', Timestamp = 0, Read = True, Wisp = True\<rparr>],
         delete_fails = (\<lambda>_. False)\<rparr>)) = []"
  by (simp add: runMailDrain_def Mailbox_List_def drain_candidates_def
      protocol_candidates_def read_wisp_candidates_def isDrainableMessage_def
      drainableSubjects_def Mailbox_Delete_def)


section \<open>Properties of the log rotator\<close>

subsection \<open>File system operations\<close>

lemma os_Stat_Remove [simp]: "os_Stat (os_Remove fs p) q = (if q = p then None else os_Stat fs q)"
  by (simp add: os_Stat_def os_Remove_def delete_conv')

lemma os_Stat_Rename:
  "os_Stat (os_Rename fs old new) q =
     (case os_Stat fs old of None \<Rightarrow> os_Stat fs q
      | Some f \<Rightarrow> if q = new then Some f else if q = old then None else os_Stat fs q)"
  by (simp add: os_Stat_def os_Rename_def update_conv' delete_conv' split: option.splits)

lemma os_Stat_Truncate:
  "os_Truncate fs p = (None, fs') \<Longrightarrow>
   os_Stat fs' q = (if q = p then map_option (\<lambda>f. f\<lparr>fsize := 0, mtime := clock fs\<rparr>) (os_Stat fs p) else os_Stat fs q)"
  by (auto simp: os_Stat_def os_Truncate_def update_conv' split: option.splits if_splits)

lemma os_Stat_compressFile:
  "compressFile fs src dst = (None, fs') \<Longrightarrow>
   os_Stat fs' q = (if q = dst then Some \<lparr>fsize = gz_len fs (fsize (the (os_Stat fs src))), mtime = clock fs\<rparr> else os_Stat fs q)"
  by (auto simp: os_Stat_def compressFile_def update_conv' split: option.splits if_splits)

lemma wf_Remove [simp]: "wf_fs fs \<Longrightarrow> wf_fs (os_Remove fs p)"
  by (simp add: wf_fs_def os_Remove_def distinct_delete)

lemma wf_Rename [simp]: "wf_fs fs \<Longrightarrow> wf_fs (os_Rename fs old new)"
  by (simp add: wf_fs_def os_Rename_def distinct_delete distinct_update split: option.splits)

lemma wf_Truncate: "wf_fs fs \<Longrightarrow> wf_fs (snd (os_Truncate fs p))"
  by (simp add: wf_fs_def os_Truncate_def distinct_update split: option.splits)

lemma wf_compressFile: "wf_fs fs \<Longrightarrow> wf_fs (snd (compressFile fs src dst))"
  by (simp add: wf_fs_def compressFile_def distinct_update split: option.splits)

lemma set_Glob_rotations:
  "set (Glob_rotations fs p) = {q. os_Stat fs q \<noteq> None \<and> glob_match p q}"
  by (auto simp: Glob_rotations_def os_Stat_def map_of_eq_None_iff)

lemma distinct_Glob_rotations: "wf_fs fs \<Longrightarrow> distinct (Glob_rotations fs p)"
  by (simp add: Glob_rotations_def wf_fs_def)

lemma digit_cases: "d < 10 \<Longrightarrow> d \<in> {0,1,2,3,4,5,6,7,8,9::nat}"
  by auto

lemma digit_not_slash: "d < 10 \<Longrightarrow> digit d \<noteq> CHR ''/''"
  using digit_cases [of d] by (auto simp: digit_def)

lemma show_nat_no_slash: "CHR ''/'' \<notin> set (show_nat n)"
proof (induction n rule: show_nat.induct)
  case (1 n)
  show ?case
  proof (cases "n < 10")
    case True
    then show ?thesis using digit_not_slash [of n] by (simp add: show_nat.simps [of n])
  next
    case False
    then show ?thesis using 1 digit_not_slash [of "n mod 10"]
      by (simp add: show_nat.simps [of n])
  qed
qed

lemma show_nat_not_Nil: "show_nat n \<noteq> []"
  by (subst show_nat.simps) simp

lemma show_nat_digit: "n < 10 \<Longrightarrow> show_nat n = [digit n]"
  by (subst show_nat.simps) simp

lemma show_nat_small: "show_nat 1 = ''1''" "show_nat 2 = ''2''" "show_nat 3 = ''3''" "show_nat 4 = ''4''"
  by (simp_all add: show_nat_digit digit_def)

lemma show_nat_large: "3 < K \<Longrightarrow> show_nat K \<notin> {''1'', ''2'', ''3''}"
proof (cases "K < 10")
  case True
  assume "3 < K"
  with True have "K \<in> {4,5,6,7,8,9}" by auto
  then show ?thesis using True by (auto simp: show_nat_digit digit_def)
next
  case False
  then have "show_nat K = show_nat (K div 10) @ [digit (K mod 10)]"
    by (subst show_nat.simps) simp
  then have "length (show_nat K) \<ge> 2"
    using show_nat_not_Nil [of "K div 10"] by (cases "show_nat (K div 10)") auto
  then show ?thesis by auto
qed

lemma glob_match_rotation_name: "glob_match p (rotation_name p K)"
  by (simp add: glob_match_def rotation_name_def show_nat_no_slash suffix_def)


lemma glob_match_neq: "glob_match p q \<Longrightarrow> q \<noteq> p"
  by (auto simp: glob_match_def prefix_def)

subsection \<open>One rotation\<close>

lemma rotation_names: "set (map (rotation_name p) [1..<Suc logRotationMaxBackups])
   = {p @ ''.1.gz'', p @ ''.2.gz'', p @ ''.3.gz''}"
proof -
  have "[1..<Suc logRotationMaxBackups] = [1, 2, 3]"
    by (simp add: logRotationMaxBackups_def upt_rec)
  moreover have "show_nat (Suc 0) = ''1''" by (simp add: show_nat_digit digit_def)
  ultimately show ?thesis by (auto simp: rotation_name_def show_nat_small)
qed

lemma only_rotations_iff:
  "only_rotations fs p \<longleftrightarrow>
     (\<forall>q. os_Stat fs q \<noteq> None \<and> glob_match p q \<longrightarrow> q \<in> {p @ ''.1.gz'', p @ ''.2.gz'', p @ ''.3.gz''})"
  unfolding only_rotations_def rotation_names
  by (auto simp: list_all_iff os_Stat_def map_of_eq_None_iff)

lemma shift_rotations_3:
  "shift_rotations p logRotationMaxBackups fs =
     os_Rename (os_Rename (os_Remove fs (p @ ''.3.gz'')) (p @ ''.2.gz'') (p @ ''.3.gz''))
       (p @ ''.1.gz'') (p @ ''.2.gz'')"
  by (simp add: logRotationMaxBackups_def numeral_3_eq_3 rotation_name_def show_nat_small
      show_nat_digit digit_def)

lemma shift_stat_other:
  "q \<notin> {p @ ''.1.gz'', p @ ''.2.gz'', p @ ''.3.gz''} \<Longrightarrow>
   os_Stat (shift_rotations p logRotationMaxBackups fs) q = os_Stat fs q"
  by (simp add: shift_rotations_3 os_Stat_Rename split: option.splits)

lemma shift_stat_first:
  "os_Stat (shift_rotations p logRotationMaxBackups fs) (p @ ''.1.gz'') = None"
  by (simp add: shift_rotations_3 os_Stat_Rename split: option.splits)

lemma wf_shift: "wf_fs fs \<Longrightarrow> wf_fs (shift_rotations p n fs)"
  by (induction n arbitrary: fs) auto

lemma length_le_3:
  assumes "distinct xs" "set xs \<subseteq> {a, b, c}"
  shows "length xs \<le> 3"
proof -
  have "length xs = card (set xs)" using assms(1) by (simp add: distinct_card)
  also have "\<dots> \<le> card {a, b, c}" using assms(2) by (simp add: card_mono)
  also have "\<dots> \<le> 3" by (simp add: card_insert_if)
  finally show ?thesis .
qed

lemma copyTruncateRotate_success:
  assumes wf: "wf_fs fs"
    and only: "only_rotations fs p"
    and ok: "copyTruncateRotate fs p = (None, fs')"
  shows "os_Stat fs' p = map_option (\<lambda>f. f\<lparr>fsize := 0, mtime := clock fs\<rparr>) (os_Stat fs p)"
    and "os_Stat fs p \<noteq> None"
    and "os_Stat fs' (p @ ''.1.gz'') \<noteq> None"
    and "only_rotations fs' p"
    and "wf_fs fs'"
proof -
  define fs1 where "fs1 = shift_rotations p logRotationMaxBackups fs"
  from ok obtain fs2 fs3 where
    c: "compressFile fs1 p (p @ ''.1.gz'') = (None, fs2)" and
    t: "os_Truncate fs2 p = (None, fs3)" and
    f: "fs' = cleanOldRotations fs3 p"
    by (auto simp: copyTruncateRotate_def Let_def fs1_def split: prod.splits option.splits)
  have p_not: "p \<notin> {p @ ''.1.gz'', p @ ''.2.gz'', p @ ''.3.gz''}" by simp
  have s1: "os_Stat fs1 p = os_Stat fs p"
    unfolding fs1_def using p_not by (rule shift_stat_other)
  have clk1: "clock fs1 = clock fs"
    by (simp add: fs1_def shift_rotations_3 os_Rename_def os_Remove_def split: option.splits)
  have clk2: "clock fs2 = clock fs1"
    using c by (auto simp: compressFile_def split: option.splits if_splits)
  have s2: "\<And>q. os_Stat fs2 q = (if q = p @ ''.1.gz'' then Some \<lparr>fsize = gz_len fs1 (fsize (the (os_Stat fs1 p))), mtime = clock fs1\<rparr> else os_Stat fs1 q)"
    using c by (rule os_Stat_compressFile)
  have s3: "\<And>q. os_Stat fs3 q = (if q = p then map_option (\<lambda>f. f\<lparr>fsize := 0, mtime := clock fs2\<rparr>) (os_Stat fs2 p) else os_Stat fs2 q)"
    using t by (rule os_Stat_Truncate)
  have wf3: "wf_fs fs3"
  proof -
    have "wf_fs fs1" unfolding fs1_def using wf by (rule wf_shift)
    then have "wf_fs (snd (compressFile fs1 p (p @ ''.1.gz'')))" by (rule wf_compressFile)
    then have "wf_fs fs2" using c by simp
    then have "wf_fs (snd (os_Truncate fs2 p))" by (rule wf_Truncate)
    then show ?thesis using t by simp
  qed
  have only3: "only_rotations fs3 p"
    unfolding only_rotations_iff
  proof (intro allI impI)
    fix q assume q: "os_Stat fs3 q \<noteq> None \<and> glob_match p q"
    show "q \<in> {p @ ''.1.gz'', p @ ''.2.gz'', p @ ''.3.gz''}"
    proof (rule ccontr)
      assume n: "q \<notin> {p @ ''.1.gz'', p @ ''.2.gz'', p @ ''.3.gz''}"
      from q have "q \<noteq> p" by (simp add: glob_match_neq)
      with n have "os_Stat fs3 q = os_Stat fs1 q" by (simp add: s3 s2)
      also have "\<dots> = os_Stat fs q" unfolding fs1_def using n by (rule shift_stat_other)
      finally have "os_Stat fs q \<noteq> None" using q by simp
      with q only n show False unfolding only_rotations_iff by blast
    qed
  qed
  have "set (Glob_rotations fs3 p) \<subseteq> {p @ ''.1.gz'', p @ ''.2.gz'', p @ ''.3.gz''}"
    using only3 by (auto simp: set_Glob_rotations only_rotations_iff)
  then have "length (Glob_rotations fs3 p) \<le> 3"
    using distinct_Glob_rotations [OF wf3] by (rule length_le_3 [rotated])
  then have same: "fs' = fs3"
    by (simp add: f cleanOldRotations_def logRotationMaxBackups_def)
  show "os_Stat fs p \<noteq> None"
    using c s1 by (auto simp: compressFile_def split: option.splits)
  show "os_Stat fs' p = map_option (\<lambda>f. f\<lparr>fsize := 0, mtime := clock fs\<rparr>) (os_Stat fs p)"
    by (simp add: same s3 s2 s1 clk1 clk2)
  show "os_Stat fs' (p @ ''.1.gz'') \<noteq> None"
    by (simp add: same s3 s2)
  show "only_rotations fs' p" using only3 same by simp
  show "wf_fs fs'" using wf3 same by simp
qed

lemma no_higher_rotation:
  assumes "only_rotations fs p" "logRotationMaxBackups < K"
  shows "os_Stat fs (rotation_name p K) = None"
proof (rule ccontr)
  assume "os_Stat fs (rotation_name p K) \<noteq> None"
  with assms(1) have "rotation_name p K \<in> {p @ ''.1.gz'', p @ ''.2.gz'', p @ ''.3.gz''}"
    by (simp add: only_rotations_iff glob_match_rotation_name)
  then have "show_nat K \<in> {''1'', ''2'', ''3''}"
    by (auto simp: rotation_name_def)
  moreover have "3 < K" using assms(2) by (simp add: logRotationMaxBackups_def)
  ultimately show False using show_nat_large by blast
qed

subsection \<open>A rotation leaves other logs alone\<close>












subsection \<open>Discovery\<close>












lemma distinct_existing: "distinct (existing fs p)"
  by (simp add: existing_def)






subsection \<open>The rotation runs\<close>





text \<open>
  The backup shift scenario: four rounds on a town that starts with no files.
\<close>

lemma four_forced_rotations:
  "map (\<lambda>K. os_Stat (force_round (force_round (force_round (force_round
            (seed_town\<lparr>files := []\<rparr>)))))
          (rotation_name ''/town/daemon/dolt.log'' K) \<noteq> None) [1, 2, 3, 4]
     = [True, True, True, False]
   \<and> Glob_rotations (force_round (force_round (force_round (force_round
            (seed_town\<lparr>files := []\<rparr>))))) ''/town/daemon/dolt.log''
     = [''/town/daemon/dolt.log.1.gz'', ''/town/daemon/dolt.log.2.gz'',
        ''/town/daemon/dolt.log.3.gz'']"
  by code_simp

text \<open>
  Claim C8, as the code has it.  Let the directory of a log hold, before the rotation,
  no name matching \<^verbatim>\<open><path>.*.gz\<close> other than \<^verbatim>\<open><path>.1.gz\<close> to \<^verbatim>\<open><path>.3.gz\<close>.  After a
  successful \<^verbatim>\<open>copyTruncateRotate\<close> the log has size 0, \<^verbatim>\<open><path>.1.gz\<close> exists, no
  \<^verbatim>\<open><path>.K.gz\<close> with K above \<^verbatim>\<open>logRotationMaxBackups\<close> exists, and the directory is
  again in such a state.  In particular four successive forced rotations of a five-byte
  log leave the backups 1 to 3 and no fourth.
\<close>

theorem copyTruncateRotate_postcondition:
  assumes "wf_fs fs"
    and "only_rotations fs logPath"
    and "copyTruncateRotate fs logPath = (None, fs')"
  shows "(\<exists>f. os_Stat fs' logPath = Some f \<and> fsize f = 0)
     \<and> os_Stat fs' (logPath @ ''.1.gz'') \<noteq> None
     \<and> (\<forall>K. logRotationMaxBackups < K \<longrightarrow> os_Stat fs' (rotation_name logPath K) = None)
     \<and> only_rotations fs' logPath \<and> wf_fs fs'
     \<and> (map (\<lambda>K. os_Stat (force_round (force_round (force_round (force_round
                  (seed_town\<lparr>files := []\<rparr>)))))
                (rotation_name ''/town/daemon/dolt.log'' K) \<noteq> None) [1, 2, 3, 4]
          = [True, True, True, False])"
proof -
  note post = copyTruncateRotate_success [OF assms]
  from post(1,2) have 1: "\<exists>f. os_Stat fs' logPath = Some f \<and> fsize f = 0"
    by auto
  have 3: "\<forall>K. logRotationMaxBackups < K \<longrightarrow> os_Stat fs' (rotation_name logPath K) = None"
    using post(4) no_higher_rotation by blast
  from 1 post(3) 3 post(4,5) four_forced_rotations show ?thesis by blast
qed

theorem copyTruncateRotate_postcondition_witness:
  "wf_fs seed_town \<and> only_rotations seed_town ''/town/daemon/dolt.log''
   \<and> fst (copyTruncateRotate seed_town ''/town/daemon/dolt.log'') = None
   \<and> os_Stat (snd (copyTruncateRotate seed_town ''/town/daemon/dolt.log''))
        ''/town/daemon/dolt.log.1.gz'' \<noteq> None
   \<and> os_Stat (snd (copyTruncateRotate seed_town ''/town/daemon/dolt.log''))
        (rotation_name ''/town/daemon/dolt.log'' 4) = None"
proof -
  have h1: "wf_fs seed_town" by code_simp
  have h2: "only_rotations seed_town ''/town/daemon/dolt.log''" by code_simp
  have h3: "fst (copyTruncateRotate seed_town ''/town/daemon/dolt.log'') = None" by code_simp
  then have h3': "copyTruncateRotate seed_town ''/town/daemon/dolt.log''
      = (None, snd (copyTruncateRotate seed_town ''/town/daemon/dolt.log''))"
    by (metis prod.collapse)
  have k: "logRotationMaxBackups < 4" by (simp add: logRotationMaxBackups_def)
  from copyTruncateRotate_postcondition [OF h1 h2 h3'] k h1 h2 h3 show ?thesis
    by simp
qed

text \<open>
  Without the condition on the directory the claim fails: a stray \<^verbatim>\<open><path>.4.gz\<close> is
  still there after a successful rotation, since \<^verbatim>\<open>cleanOldRotations\<close> removes nothing
  while no more than three names match.
\<close>

theorem copyTruncateRotate_counterexample:
  "wf_fs stray_town
   \<and> fst (copyTruncateRotate stray_town ''/town/daemon/dolt.log'') = None
   \<and> logRotationMaxBackups < 4
   \<and> rotation_name ''/town/daemon/dolt.log'' 4 = ''/town/daemon/dolt.log.4.gz''
   \<and> os_Stat (snd (copyTruncateRotate stray_town ''/town/daemon/dolt.log''))
        (rotation_name ''/town/daemon/dolt.log'' 4) \<noteq> None"
  by code_simp


section \<open>Properties of the retention engine\<close>

subsection \<open>Auto-close\<close>

lemma blocked_ids_iff:
  "x \<in> set (blocked_ids db) \<longleftrightarrow>
     (\<exists>d\<in>set (dependencies db). \<exists>j\<in>set (issues db).
        d_issue_id d = x \<and> d_depends_on_id d = i_id j \<and> is_open_issue j)"
  by (auto simp: blocked_ids_def list_ex_iff)

lemma blocking_ids_iff:
  "x \<in> set (blocking_ids db) \<longleftrightarrow>
     (\<exists>d\<in>set (dependencies db). \<exists>j\<in>set (issues db).
        d_depends_on_id d = x \<and> d_issue_id d = i_id j \<and> is_open_issue j)"
  by (auto simp: blocking_ids_def list_ex_iff)

lemma issues_dolt_commit [simp]: "issues (dolt_commit db m) = issues db"
  by (simp add: dolt_commit_def)

lemma autoClose_issues:
  "issues (snd (autoCloseStaleIssuesInDB dbName staleCutoff now dryRun db)) = issues db
   \<or> issues (snd (autoCloseStaleIssuesInDB dbName staleCutoff now dryRun db))
        = issues (close_stale_issues db staleCutoff now)"
  by (simp add: autoCloseStaleIssuesInDB_def Let_def)

text \<open>
  Claim C6.  Every issue row that \<^verbatim>\<open>autoCloseStaleIssuesInDB\<close> changes had, in the state
  the UPDATE ran on, priority greater than 1, a type other than epic, \<^verbatim>\<open>updated_at\<close>
  before the stale cutoff and status open or in_progress, and no dependency row linked it
  in either direction to an issue with status open or in_progress; the row is set to
  closed, and nothing is changed in a dry run.
\<close>

theorem auto_close_only_stale:
  assumes "autoCloseStaleIssuesInDB dbName staleCutoff now dryRun db = (r, db')"
    and "n < length (issues db)"
    and "issues db' ! n \<noteq> issues db ! n"
  shows "i_priority (issues db ! n) > 1
     \<and> i_issue_type (issues db ! n) \<noteq> ''epic''
     \<and> i_updated_at (issues db ! n) < staleCutoff
     \<and> (i_status (issues db ! n) = ''open'' \<or> i_status (issues db ! n) = ''in_progress'')
     \<and> \<not> (\<exists>d\<in>set (dependencies db). \<exists>j\<in>set (issues db).
              (i_status j = ''open'' \<or> i_status j = ''in_progress'')
              \<and> (d_issue_id d = i_id (issues db ! n) \<and> d_depends_on_id d = i_id j
                 \<or> d_issue_id d = i_id j \<and> d_depends_on_id d = i_id (issues db ! n)))
     \<and> length (issues db') = length (issues db)
     \<and> issues db' ! n = (issues db ! n)\<lparr>i_status := ''closed'', i_closed_at := Some now\<rparr>
     \<and> \<not> dryRun"
proof -
  let ?i = "issues db ! n"
  have db': "db' = snd (autoCloseStaleIssuesInDB dbName staleCutoff now dryRun db)"
    using assms(1) by simp
  have ch: "issues db' = issues (close_stale_issues db staleCutoff now)"
    using autoClose_issues [of dbName staleCutoff now dryRun db] assms(3) db' by auto
  have nd: "\<not> dryRun"
    using assms(3) db' by (auto simp: autoCloseStaleIssuesInDB_def Let_def split: if_splits)
  have nth: "issues db' ! n = (if stale_where db staleCutoff ?i
       then ?i\<lparr>i_status := ''closed'', i_closed_at := Some now\<rparr> else ?i)"
    using assms(2) by (simp add: ch close_stale_issues_def)
  with assms(3) have st: "stale_where db staleCutoff ?i" by (auto split: if_splits)
  have len: "length (issues db') = length (issues db)"
    by (simp add: ch close_stale_issues_def)
  have nodep: "\<not> (\<exists>d\<in>set (dependencies db). \<exists>j\<in>set (issues db).
              (i_status j = ''open'' \<or> i_status j = ''in_progress'')
              \<and> (d_issue_id d = i_id ?i \<and> d_depends_on_id d = i_id j
                 \<or> d_issue_id d = i_id j \<and> d_depends_on_id d = i_id ?i))"
    using st unfolding stale_where_def blocked_ids_iff blocking_ids_iff
    by (auto simp: is_open_issue_def)
  from st have "i_priority ?i > 1" "i_issue_type ?i \<noteq> ''epic''" "i_updated_at ?i < staleCutoff"
    "i_status ?i = ''open'' \<or> i_status ?i = ''in_progress''"
    by (auto simp: stale_where_def is_open_issue_def)
  with nodep len nth st nd show ?thesis by simp
qed

subsection \<open>Databases of a cycle\<close>



lemma with_db_mol: "mol (snd (with_db d n u f)) = mol d"
  by (simp add: with_db_def split: option.splits prod.splits)













lemma touches_only_mol [simp]:
  "touches_only ns d (closeStep d' s) = touches_only ns d d'"
  "touches_only ns d (failStep d' s r) = touches_only ns d d'"
  "touches_only ns d (finish_step d' s e w) = touches_only ns d d'"
  "touches_only ns (closeStep d s) d' = touches_only ns d d'"
  by (simp_all add: touches_only_def closeStep_def failStep_def finish_step_def)






subsection \<open>Parent-closure gating\<close>

lemma parentCheckWhere_id:
  "w_id w = w_id w' \<Longrightarrow> parentCheckWhere db w = parentCheckWhere db w'"
  by (simp add: parentCheckWhere_def has_parent_row_def has_closed_parent_def)

lemma delete_aux_primary [simp]:
  "wisps (delete_aux tbl ids db) = wisps db"
  "issues (delete_aux tbl ids db) = issues db"
  "fails (delete_aux tbl ids db) = fails db"
  "commits (delete_aux tbl ids db) = commits db"
  by (simp_all add: delete_aux_def)

lemma delete_aux_tables_primary [simp]:
  "wisps (delete_aux_tables tbls ids db) = wisps db"
  "issues (delete_aux_tables tbls ids db) = issues db"
  "fails (delete_aux_tables tbls ids db) = fails db"
  "commits (delete_aux_tables tbls ids db) = commits db"
  unfolding delete_aux_tables_def
  by (induction tbls arbitrary: db) simp_all

lemma delete_aux_wisp_deps:
  "wisp_dependencies (delete_aux tbl ids db) =
     (if tbl = ''wisp_dependencies'' \<and> \<not> fails db (DeleteAux tbl)
      then filter (\<lambda>r. d_issue_id r \<notin> set ids) (wisp_dependencies db)
      else wisp_dependencies db)"
  by (simp add: delete_aux_def)

lemma delete_aux_labels:
  "labels (delete_aux tbl ids db) =
     (if tbl = ''labels'' \<and> \<not> fails db (DeleteAux tbl)
      then filter (\<lambda>r. a_issue_id r \<notin> set ids) (labels db)
      else labels db)"
  by (simp add: delete_aux_def)

lemma delete_aux_dependencies:
  "dependencies (delete_aux tbl ids db) =
     (if tbl = ''dependencies'' \<and> \<not> fails db (DeleteAux tbl)
      then filter (\<lambda>r. d_issue_id r \<notin> set ids) (dependencies db)
      else dependencies db)"
  by (simp add: delete_aux_def)


lemma wisp_aux_deps:
  "wisp_dependencies (delete_aux_tables wisp_auxTables ids db) =
     (if fails db (DeleteAux ''wisp_dependencies'') then wisp_dependencies db
      else filter (\<lambda>r. d_issue_id r \<notin> set ids) (wisp_dependencies db))"
  by (simp add: delete_aux_tables_def wisp_auxTables_def delete_aux_wisp_deps)

lemma mail_aux_wisp_deps:
  "wisp_dependencies (delete_aux_tables mail_auxTables ids db) = wisp_dependencies db"
  by (simp add: delete_aux_tables_def mail_auxTables_def delete_aux_wisp_deps)

lemma mail_aux_labels_subset:
  "set (labels (delete_aux_tables mail_auxTables ids db)) \<subseteq> set (labels db)"
  by (auto simp: delete_aux_tables_def mail_auxTables_def delete_aux_labels)

lemma wisp_idQuery_sound:
  "x \<in> set (wisp_idQuery c db) \<Longrightarrow> \<exists>w\<in>set (wisps db). w_id w = x \<and> purge_where db c w"
proof -
  assume "x \<in> set (wisp_idQuery c db)"
  then obtain w where w: "w \<in> set (take deleteBatchSize (filter (purge_where db c) (wisps db)))"
    "w_id w = x"
    by (auto simp: wisp_idQuery_def)
  from w(1) have "w \<in> set (filter (purge_where db c) (wisps db))"
    by (rule in_set_takeD)
  with w(2) show ?thesis by auto
qed

text \<open>A wisp deleted by one batch was eligible when the batch was selected, and still when
  the primary DELETE ran.\<close>

lemma wisp_batch_gated:
  assumes "w \<in> set (wisps db)"
    and "w \<notin> set (wisps (delete_batch ''wisps'' wisp_auxTables (wisp_idQuery c db) db))"
  shows "parentCheckWhere db w
     \<and> parentCheckWhere (delete_aux_tables wisp_auxTables (wisp_idQuery c db) db) w"
proof -
  let ?ids = "wisp_idQuery c db"
  let ?db1 = "delete_aux_tables wisp_auxTables ?ids db"
  from assms have inids: "w_id w \<in> set ?ids"
    by (auto simp: delete_batch_def delete_primary_def)
  then obtain w' where w': "w' \<in> set (wisps db)" "w_id w' = w_id w" "purge_where db c w'"
    using wisp_idQuery_sound by blast
  then have a: "parentCheckWhere db w"
    using parentCheckWhere_id [of w w' db] by (simp add: purge_where_def)
  have b: "parentCheckWhere ?db1 w"
  proof (cases "fails db (DeleteAux ''wisp_dependencies'')")
    case True
    then show ?thesis using a
      by (simp add: parentCheckWhere_def has_parent_row_def has_closed_parent_def wisp_aux_deps)
  next
    case False
    then have "\<not> has_parent_row ?db1 w" using inids
      by (auto simp: has_parent_row_def wisp_aux_deps list_ex_iff)
    then show ?thesis by (simp add: parentCheckWhere_def)
  qed
  from a b show ?thesis ..
qed

text \<open>Eligibility of a surviving wisp is not created by a batch.\<close>

lemma wisp_batch_survivor:
  assumes "w \<in> set (wisps (delete_batch ''wisps'' wisp_auxTables ids db))"
    and "parentCheckWhere (delete_batch ''wisps'' wisp_auxTables ids db) w"
  shows "parentCheckWhere db w"
proof -
  let ?db2 = "delete_batch ''wisps'' wisp_auxTables ids db"
  have notin: "w_id w \<notin> set ids"
    using assms(1) by (auto simp: delete_batch_def delete_primary_def)
  have deps2: "wisp_dependencies ?db2 = (if fails db (DeleteAux ''wisp_dependencies'') then wisp_dependencies db
      else filter (\<lambda>r. d_issue_id r \<notin> set ids) (wisp_dependencies db))"
    by (simp add: delete_batch_def delete_primary_def wisp_aux_deps)
  have wisps2: "wisps ?db2 = filter (\<lambda>w. w_id w \<notin> set ids) (wisps db)"
    by (simp add: delete_batch_def delete_primary_def)
  have row: "has_parent_row ?db2 w = has_parent_row db w"
    using notin by (auto simp: has_parent_row_def deps2 list_ex_iff)
  have cl: "has_closed_parent ?db2 w \<Longrightarrow> has_closed_parent db w"
    by (auto simp: has_closed_parent_def deps2 wisps2 list_ex_iff split: if_splits)
  show ?thesis
    using assms(2) row cl by (auto simp: parentCheckWhere_def)
qed

lemma batch_wisps_gated:
  assumes "batchDeleteRows idQuery primaryTable auxTables db t = (r, db')"
    and "idQuery = wisp_idQuery c" "primaryTable = ''wisps''" "auxTables = wisp_auxTables"
    and "w \<in> set (wisps db)" "w \<notin> set (wisps db')"
  shows "parentCheckWhere db w"
  using assms
proof (induction idQuery primaryTable auxTables db t arbitrary: r db' rule: batchDeleteRows.induct)
  case (1 idQuery primaryTable auxTables db totalDeleted)
  let ?ids = "idQuery db"
  let ?db2 = "delete_batch primaryTable auxTables ?ids db"
  note eq = "1.prems"(1)
  note [simp] = "1.prems"(2,3,4)
  show ?case
  proof (cases "fails db SelectBatch \<or> ?ids = [] \<or> fails db DeletePrimary")
    case True
    then have "wisps db' = wisps db"
      using eq by (subst (asm) batchDeleteRows.simps) (auto split: if_splits)
    with "1.prems"(5,6) show ?thesis by simp
  next
    case False
    show ?thesis
    proof (cases "w \<in> set (wisps ?db2)")
      case False
      with "1.prems"(5) show ?thesis using wisp_batch_gated [of w db c] by simp
    next
      case True
      have rec: "primary_rows ?db2 < primary_rows db \<Longrightarrow>
              batchDeleteRows idQuery primaryTable auxTables ?db2
                (totalDeleted + (primary_rows db - primary_rows ?db2)) = (r, db')"
        using eq \<open>\<not> (fails db SelectBatch \<or> ?ids = [] \<or> fails db DeletePrimary)\<close>
        by (subst (asm) batchDeleteRows.simps) (simp split: if_splits)
      have stop: "\<not> primary_rows ?db2 < primary_rows db \<Longrightarrow> db' = ?db2"
        using eq \<open>\<not> (fails db SelectBatch \<or> ?ids = [] \<or> fails db DeletePrimary)\<close>
        by (subst (asm) batchDeleteRows.simps) (simp split: if_splits)
      show ?thesis
      proof (cases "primary_rows ?db2 < primary_rows db")
        case False
        with stop True "1.prems"(6) show ?thesis by simp
      next
        case lt: True
        have "parentCheckWhere ?db2 w"
          using "1.IH" [OF _ _ _ lt rec [OF lt] "1.prems"(2,3,4) True "1.prems"(6)]
            \<open>\<not> (fails db SelectBatch \<or> ?ids = [] \<or> fails db DeletePrimary)\<close>
          by simp
        then show ?thesis using True wisp_batch_survivor [of w ?ids db] by simp
      qed
    qed
  qed
qed

lemma batch_preserves:
  assumes "\<And>ids d. f (delete_batch pt aux ids d) = f d"
    and "\<And>ids d. f (delete_aux_tables aux ids d) = f d"
  shows "f (snd (batchDeleteRows q pt aux db t)) = f db"
  using assms
proof (induction q pt aux db t rule: batchDeleteRows.induct)
  case (1 idQuery primaryTable auxTables db totalDeleted)
  show ?case
    by (subst batchDeleteRows.simps) (use 1 in \<open>auto simp del: batchDeleteRows.simps\<close>)
qed

lemma dolt_commit_fields [simp]:
  "wisps (dolt_commit db m) = wisps db"
  "wisp_dependencies (dolt_commit db m) = wisp_dependencies db"
  "issues (dolt_commit db m) = issues db"
  "labels (dolt_commit db m) = labels db"
  by (simp_all add: dolt_commit_def)

lemma reap_wisps_cases:
  "wisps (snd (reapWispsInDB dbName cutoff now dryRun db)) = wisps db
   \<or> (\<not> dryRun \<and> wisps (snd (reapWispsInDB dbName cutoff now dryRun db))
        = wisps (close_stale db cutoff now))"
  by (simp add: reapWispsInDB_def Let_def)

lemma reap_changed_row:
  assumes "n < length (wisps db)"
    and "wisps (snd (reapWispsInDB dbName cutoff now dryRun db)) ! n \<noteq> wisps db ! n"
  shows "reap_where db cutoff (wisps db ! n) \<and> \<not> dryRun"
proof -
  from reap_wisps_cases [of dbName cutoff now dryRun db] assms(2)
  have c: "\<not> dryRun" "wisps (snd (reapWispsInDB dbName cutoff now dryRun db))
        = wisps (close_stale db cutoff now)"
    by auto
  have "wisps (close_stale db cutoff now) ! n =
      (if reap_where db cutoff (wisps db ! n)
       then (wisps db ! n)\<lparr>w_status := ''closed'', w_closed_at := Some now\<rparr> else wisps db ! n)"
    using assms(1) by (simp add: close_stale_def)
  with assms(2) c show ?thesis by (auto split: if_splits)
qed

lemma purge_deleted_gated:
  assumes "w \<in> set (wisps db)"
    and "w \<notin> set (wisps (snd (purgeClosedWispsInDB dbName c dryRun db)))"
  shows "parentCheckWhere db w \<and> \<not> dryRun"
proof -
  obtain r db1 where b: "batchDeleteRows (wisp_idQuery c) ''wisps'' wisp_auxTables db 0 = (r, db1)"
    by (metis prod.collapse)
  have "wisps (snd (purgeClosedWispsInDB dbName c dryRun db)) = wisps db
      \<or> (\<not> dryRun \<and> wisps (snd (purgeClosedWispsInDB dbName c dryRun db)) = wisps db1)"
    using b by (auto simp: purgeClosedWispsInDB_def Let_def split: prod.splits option.splits)
  with assms have nd: "\<not> dryRun" and "w \<notin> set (wisps db1)" by auto
  then have "parentCheckWhere db w"
    using batch_wisps_gated [OF b refl refl refl assms(1)] by simp
  with nd show ?thesis by simp
qed

lemma mail_batch_wisps:
  "wisps (snd (batchDeleteRows q ''issues'' mail_auxTables db t)) = wisps db"
  by (rule batch_preserves) (simp_all add: delete_batch_def delete_primary_def)

lemma mail_batch_wisp_deps:
  "wisp_dependencies (snd (batchDeleteRows q ''issues'' mail_auxTables db t)) = wisp_dependencies db"
  by (rule batch_preserves) (simp_all add: delete_batch_def delete_primary_def mail_aux_wisp_deps)

lemma purgeOldMail_field:
  assumes "\<And>d m. f (dolt_commit d m) = f d"
    and "f (snd (batchDeleteRows (mail_idQuery mc) ''issues'' mail_auxTables db 0)) = f db"
  shows "f (snd (purgeOldMailInDB dbName mc db)) = f db"
proof -
  obtain total e db1 where
    b: "batchDeleteRows (mail_idQuery mc) ''issues'' mail_auxTables db 0 = ((total, e), db1)"
    by (metis prod.collapse)
  with assms(2) have "f db1 = f db" by simp
  then show ?thesis
    by (cases e) (simp_all add: purgeOldMailInDB_def b assms(1))
qed

lemma purgeOldMail_wisps:
  "wisps (snd (purgeOldMailInDB dbName mc db)) = wisps db
   \<and> wisp_dependencies (snd (purgeOldMailInDB dbName mc db)) = wisp_dependencies db"
  by (intro conjI purgeOldMail_field dolt_commit_fields mail_batch_wisps mail_batch_wisp_deps)

lemma autoClose_wisps:
  "wisps (snd (autoCloseStaleIssuesInDB dbName sc now dryRun db)) = wisps db
   \<and> wisp_dependencies (snd (autoCloseStaleIssuesInDB dbName sc now dryRun db)) = wisp_dependencies db"
  by (simp add: autoCloseStaleIssuesInDB_def Let_def close_stale_issues_def)

text \<open>
  Claim C1.  In whatever state the statements run:
  a row changed by the UPDATE of \<^verbatim>\<open>reapWispsInDB\<close> had no parent-child row or had a
  closed parent in that state (and was open and older than the cutoff);
  a row deleted by one batch of the purge had no parent-child row or had a closed parent
  both when the batch was selected and, after the auxiliary deletes, when the primary
  DELETE ran;
  a row deleted by \<^verbatim>\<open>purgeClosedWispsInDB\<close> as a whole had so when the purge began;
  hence a wisp that has a parent-child row and no closed parent is in the table after
  either step;
  and the mail purge and the auto-close step leave the wisp tables alone.
\<close>

theorem parent_closure_gating:
  "(n < length (wisps db)
      \<and> wisps (snd (reapWispsInDB dbName cutoff now dryRun db)) ! n \<noteq> wisps db ! n
     \<longrightarrow> (\<not> has_parent_row db (wisps db ! n) \<or> has_closed_parent db (wisps db ! n))
          \<and> is_open_wisp (wisps db ! n) \<and> w_created_at (wisps db ! n) < cutoff)
   \<and> (w \<in> set (wisps db)
      \<and> w \<notin> set (wisps (delete_batch ''wisps'' wisp_auxTables (wisp_idQuery deleteCutoff db) db))
     \<longrightarrow> (\<not> has_parent_row db w \<or> has_closed_parent db w)
          \<and> (\<not> has_parent_row (delete_aux_tables wisp_auxTables (wisp_idQuery deleteCutoff db) db) w
             \<or> has_closed_parent (delete_aux_tables wisp_auxTables (wisp_idQuery deleteCutoff db) db) w))
   \<and> (w \<in> set (wisps db)
      \<and> w \<notin> set (wisps (snd (purgeClosedWispsInDB dbName deleteCutoff dryRun db)))
     \<longrightarrow> \<not> has_parent_row db w \<or> has_closed_parent db w)
   \<and> (w \<in> set (wisps db) \<and> has_parent_row db w \<and> \<not> has_closed_parent db w
     \<longrightarrow> w \<in> set (wisps (snd (reapWispsInDB dbName cutoff now dryRun db)))
          \<and> w \<in> set (wisps (snd (purgeClosedWispsInDB dbName deleteCutoff dryRun db))))
   \<and> wisps (snd (purgeOldMailInDB dbName mailCutoff db)) = wisps db
   \<and> wisp_dependencies (snd (purgeOldMailInDB dbName mailCutoff db)) = wisp_dependencies db
   \<and> wisps (snd (autoCloseStaleIssuesInDB dbName staleCutoff now dryRun db)) = wisps db
   \<and> wisp_dependencies (snd (autoCloseStaleIssuesInDB dbName staleCutoff now dryRun db))
       = wisp_dependencies db"
proof -
  have 1: "n < length (wisps db)
      \<and> wisps (snd (reapWispsInDB dbName cutoff now dryRun db)) ! n \<noteq> wisps db ! n
     \<longrightarrow> (\<not> has_parent_row db (wisps db ! n) \<or> has_closed_parent db (wisps db ! n))
          \<and> is_open_wisp (wisps db ! n) \<and> w_created_at (wisps db ! n) < cutoff"
    using reap_changed_row [of n db dbName cutoff now dryRun]
    by (auto simp: reap_where_def parentCheckWhere_def)
  have 2: "w \<in> set (wisps db)
      \<and> w \<notin> set (wisps (delete_batch ''wisps'' wisp_auxTables (wisp_idQuery deleteCutoff db) db))
     \<longrightarrow> (\<not> has_parent_row db w \<or> has_closed_parent db w)
          \<and> (\<not> has_parent_row (delete_aux_tables wisp_auxTables (wisp_idQuery deleteCutoff db) db) w
             \<or> has_closed_parent (delete_aux_tables wisp_auxTables (wisp_idQuery deleteCutoff db) db) w)"
    using wisp_batch_gated [of w db deleteCutoff] by (simp add: parentCheckWhere_def)
  have 3: "w \<in> set (wisps db)
      \<and> w \<notin> set (wisps (snd (purgeClosedWispsInDB dbName deleteCutoff dryRun db)))
     \<longrightarrow> \<not> has_parent_row db w \<or> has_closed_parent db w"
    using purge_deleted_gated [of w db dbName deleteCutoff dryRun] by (simp add: parentCheckWhere_def)
  have 4: "w \<in> set (wisps db) \<and> has_parent_row db w \<and> \<not> has_closed_parent db w
     \<longrightarrow> w \<in> set (wisps (snd (reapWispsInDB dbName cutoff now dryRun db)))
          \<and> w \<in> set (wisps (snd (purgeClosedWispsInDB dbName deleteCutoff dryRun db)))"
  proof (intro impI conjI)
    assume a: "w \<in> set (wisps db) \<and> has_parent_row db w \<and> \<not> has_closed_parent db w"
    then have np: "\<not> reap_where db cutoff w" by (simp add: reap_where_def parentCheckWhere_def)
    from a have "w \<in> set (wisps (close_stale db cutoff now))"
      using np by (force simp: close_stale_def)
    with a show "w \<in> set (wisps (snd (reapWispsInDB dbName cutoff now dryRun db)))"
      using reap_wisps_cases [of dbName cutoff now dryRun db] by auto
    from a 3 show "w \<in> set (wisps (snd (purgeClosedWispsInDB dbName deleteCutoff dryRun db)))"
      by blast
  qed
  note 5 = purgeOldMail_wisps [of dbName mailCutoff db]
  note 6 = autoClose_wisps [of dbName staleCutoff now dryRun db]
  show ?thesis
    apply (intro conjI)
           apply (rule 1)
          apply (rule 2)
         apply (rule 3)
        apply (rule 4)
       apply (rule 5 [THEN conjunct1])
      apply (rule 5 [THEN conjunct2])
     apply (rule 6 [THEN conjunct1])
    apply (rule 6 [THEN conjunct2])
    done
qed

subsection \<open>Mail purge\<close>

lemma purged_only_mail_refl: "purged_only_mail c db db"
  by (simp add: purged_only_mail_def)

lemma purged_only_mail_same:
  "issues db' = issues db \<Longrightarrow> labels db' = labels db \<Longrightarrow> purged_only_mail c db db'"
  by (simp add: purged_only_mail_def)

lemma purged_only_mail_trans:
  assumes "purged_only_mail c db db1" "purged_only_mail c db1 db2"
  shows "purged_only_mail c db db2"
  unfolding purged_only_mail_def
proof (intro conjI ballI)
  show "set (issues db2) \<subseteq> set (issues db)"
    using assms by (auto simp: purged_only_mail_def)
  show "set (labels db2) \<subseteq> set (labels db)"
    using assms by (auto simp: purged_only_mail_def)
next
  fix i assume i: "i \<in> set (issues db) - set (issues db2)"
  show "\<exists>j\<in>set (issues db). i_id j = i_id i \<and> mail_where c j
                \<and> (\<exists>l\<in>set (labels db). is_message_label j l)"
  proof (cases "i \<in> set (issues db1)")
    case False
    with i assms(1) show ?thesis by (auto simp: purged_only_mail_def)
  next
    case True
    with i assms(2) obtain j l where "j \<in> set (issues db1)" "i_id j = i_id i" "mail_where c j"
      "l \<in> set (labels db1)" "is_message_label j l"
      unfolding purged_only_mail_def by blast
    moreover have "set (issues db1) \<subseteq> set (issues db)" "set (labels db1) \<subseteq> set (labels db)"
      using assms(1) by (auto simp: purged_only_mail_def)
    ultimately show ?thesis by blast
  qed
qed

lemma mail_idQuery_sound:
  assumes "x \<in> set (mail_idQuery c db)"
  shows "\<exists>j\<in>set (issues db). i_id j = x \<and> mail_where c j
           \<and> (\<exists>l\<in>set (labels db). is_message_label j l)"
proof -
  from assms have "x \<in> set (concat (map (\<lambda>i. map (\<lambda>l. i_id i) (filter (is_message_label i) (labels db)))
                  (filter (mail_where c) (issues db))))"
    unfolding mail_idQuery_def by (rule in_set_takeD)
  then show ?thesis by auto
qed

lemma mail_batch_ok:
  "purged_only_mail c db (delete_batch ''issues'' mail_auxTables (mail_idQuery c db) db)"
  unfolding purged_only_mail_def
proof (intro conjI ballI)
  let ?ids = "mail_idQuery c db"
  let ?db2 = "delete_batch ''issues'' mail_auxTables ?ids db"
  have is2: "issues ?db2 = filter (\<lambda>i. i_id i \<notin> set ?ids) (issues db)"
    by (simp add: delete_batch_def delete_primary_def)
  show "set (issues ?db2) \<subseteq> set (issues db)" by (auto simp: is2)
  show "set (labels ?db2) \<subseteq> set (labels db)"
    using mail_aux_labels_subset [of ?ids db] by (simp add: delete_batch_def delete_primary_def)
  fix i assume "i \<in> set (issues db) - set (issues ?db2)"
  then have "i_id i \<in> set ?ids" by (auto simp: is2)
  then show "\<exists>j\<in>set (issues db). i_id j = i_id i \<and> mail_where c j
                \<and> (\<exists>l\<in>set (labels db). is_message_label j l)"
    by (rule mail_idQuery_sound)
qed

lemma mail_aux_ok:
  "purged_only_mail c db (delete_aux_tables mail_auxTables ids db)"
  using mail_aux_labels_subset [of ids db] by (simp add: purged_only_mail_def)

lemma batch_mail_ok:
  assumes "idQuery = mail_idQuery c" "primaryTable = ''issues''" "auxTables = mail_auxTables"
  shows "purged_only_mail c db (snd (batchDeleteRows idQuery primaryTable auxTables db t))"
  using assms
proof (induction idQuery primaryTable auxTables db t rule: batchDeleteRows.induct)
  case (1 idQuery primaryTable auxTables db totalDeleted)
  note [simp] = "1.prems"
  let ?db2 = "delete_batch primaryTable auxTables (idQuery db) db"
  have b: "purged_only_mail c db ?db2" using mail_batch_ok [of c db] by simp
  have a: "purged_only_mail c db (delete_aux_tables auxTables (idQuery db) db)"
    using mail_aux_ok [of c db] by simp
  show ?case
  proof (cases "\<not> fails db SelectBatch \<and> idQuery db \<noteq> [] \<and> \<not> fails db DeletePrimary
                \<and> primary_rows ?db2 < primary_rows db")
    case True
    then have "purged_only_mail c ?db2 (snd (batchDeleteRows idQuery primaryTable auxTables ?db2
                (totalDeleted + (primary_rows db - primary_rows ?db2))))"
      using "1.IH" "1.prems" by simp
    with b have "purged_only_mail c db (snd (batchDeleteRows idQuery primaryTable auxTables ?db2
                (totalDeleted + (primary_rows db - primary_rows ?db2))))"
      by (rule purged_only_mail_trans)
    then show ?thesis using True
      by (subst batchDeleteRows.simps) simp
  next
    case False
    then show ?thesis using a b purged_only_mail_refl [of c db]
      by (subst batchDeleteRows.simps) auto
  qed
qed

lemma purgeOldMail_ok: "purged_only_mail c db (snd (purgeOldMailInDB dbName c db))"
proof -
  obtain total e db1 where
    b: "batchDeleteRows (mail_idQuery c) ''issues'' mail_auxTables db 0 = ((total, e), db1)"
    by (metis prod.collapse)
  have 1: "purged_only_mail c db db1"
    using batch_mail_ok [OF refl refl refl, of c db 0] b by simp
  then have 2: "purged_only_mail c db (dolt_commit db1 m)" for m
    by (simp add: purged_only_mail_def)
  show ?thesis
    using 1 2 purged_only_mail_refl [of c db]
    by (cases e) (simp_all add: purgeOldMailInDB_def b)
qed

lemma each_db_refl: "(\<And>db. R db db) \<Longrightarrow> each_db R d d"
  by (simp add: each_db_def)

lemma each_dbD:
  "each_db R d d' \<Longrightarrow> dbs d n = Some db \<Longrightarrow> dbs d' n = Some db' \<Longrightarrow> R db db'"
  by (fastforce simp: each_db_def)

lemma each_db_trans:
  assumes "\<And>a b c. R a b \<Longrightarrow> R b c \<Longrightarrow> R a c"
    and "each_db R d d1" "each_db R d1 d2"
  shows "each_db R d d2"
  unfolding each_db_def
proof (intro allI impI)
  fix n db assume "dbs d n = Some db"
  with assms(2) obtain db1 where 1: "dbs d1 n = Some db1" "R db db1"
    by (auto simp: each_db_def)
  with assms(3) obtain db2 where 2: "dbs d2 n = Some db2" "R db1 db2"
    by (auto simp: each_db_def)
  from 1 2 assms(1) show "\<exists>db'. dbs d2 n = Some db' \<and> R db db'" by blast
qed

lemma each_db_with_db:
  assumes "\<And>db. R db (snd (f db))" and "\<And>db. R db db"
  shows "each_db R d (snd (with_db d n u f))"
  unfolding each_db_def
proof (intro allI impI)
  fix m db assume m: "dbs d m = Some db"
  show "\<exists>db'. dbs (snd (with_db d n u f)) m = Some db' \<and> R db db'"
  proof (cases "dbs d n")
    case None
    then show ?thesis using m assms(2) by (simp add: with_db_def)
  next
    case (Some dbn)
    obtain r db' where f: "f dbn = (r, db')" by (cases "f dbn")
    then have "R dbn db'" using assms(1) [of dbn] by simp
    then show ?thesis using m Some f assms(2) by (auto simp: with_db_def)
  qed
qed

lemma each_db_mol [simp]:
  "each_db R d (closeStep d' s) = each_db R d d'"
  "each_db R d (failStep d' s r) = each_db R d d'"
  "each_db R d (finish_step d' s e w) = each_db R d d'"
  by (simp_all add: each_db_def closeStep_def failStep_def finish_step_def)

lemma mail_loop_ok: "each_db (purged_only_mail c) d (snd (mail_loop ns c rc d))"
proof (induction ns arbitrary: rc d)
  case Nil
  show ?case by (simp add: each_db_refl purged_only_mail_refl)
next
  case (Cons n ns)
  show ?case
  proof (cases "validDBName n")
    case False
    then show ?thesis using Cons.IH by simp
  next
    case True
    obtain purged e d1 where w: "with_db d n (0, Some ''connect'') (purgeOldMailInDB n c) = ((purged, e), d1)"
      by (metis prod.collapse)
    have "each_db (purged_only_mail c) d (snd (with_db d n (0, Some ''connect'') (purgeOldMailInDB n c)))"
      by (rule each_db_with_db) (rule purgeOldMail_ok purged_only_mail_refl)+
    then have 1: "each_db (purged_only_mail c) d d1" using w by simp
    have step: "each_db (purged_only_mail c) d (snd (mail_loop ns c rc' d1))" for rc'
      using purged_only_mail_trans 1 Cons.IH by (rule each_db_trans)
    show ?thesis using True w step by (cases e) simp_all
  qed
qed

lemma delete_aux_tables_wisp_labels:
  "labels (delete_aux_tables wisp_auxTables ids db) = labels db"
  by (simp add: delete_aux_tables_def wisp_auxTables_def delete_aux_labels)

lemma purgeClosedWisps_field:
  assumes "\<And>d m. f (dolt_commit d m) = f d"
    and "\<And>q t. f (snd (batchDeleteRows q ''wisps'' wisp_auxTables db t)) = f db"
  shows "f (snd (purgeClosedWispsInDB dbName c dryRun db)) = f db"
proof -
  obtain total e db1 where
    b: "batchDeleteRows (wisp_idQuery c) ''wisps'' wisp_auxTables db 0 = ((total, e), db1)"
    by (metis prod.collapse)
  with assms(2) [of "wisp_idQuery c" 0] have "f db1 = f db" by simp
  then show ?thesis
    by (cases e) (simp_all add: purgeClosedWispsInDB_def Let_def b assms(1))
qed

lemma purgeClosedWisps_issues:
  "issues (snd (purgeClosedWispsInDB dbName c dryRun db)) = issues db"
  by (rule purgeClosedWisps_field, simp, rule batch_preserves)
     (simp_all add: delete_batch_def delete_primary_def)

lemma purgeClosedWisps_labels:
  "labels (snd (purgeClosedWispsInDB dbName c dryRun db)) = labels db"
  by (rule purgeClosedWisps_field, simp, rule batch_preserves)
     (simp_all add: delete_batch_def delete_primary_def delete_aux_tables_wisp_labels)

lemma purge_loop_ok: "each_db (purged_only_mail c) d (snd (snd (purge_loop ns rc errs d)))"
proof (induction ns arbitrary: rc errs d)
  case Nil
  show ?case by (simp add: each_db_refl purged_only_mail_refl)
next
  case (Cons n ns)
  show ?case
  proof (cases "validDBName n")
    case False
    then show ?thesis using Cons.IH by simp
  next
    case True
    obtain purged e d1 where w: "with_db d n (0, Some ''connect'')
        (purgeClosedWispsInDB n (rc_deleteCutoff rc) (rc_dryRun rc)) = ((purged, e), d1)"
      by (metis prod.collapse)
    have "each_db (purged_only_mail c) d (snd (with_db d n (0, Some ''connect'')
        (purgeClosedWispsInDB n (rc_deleteCutoff rc) (rc_dryRun rc))))"
      by (rule each_db_with_db)
        (simp_all add: purged_only_mail_same purgeClosedWisps_issues purgeClosedWisps_labels)
    then have 1: "each_db (purged_only_mail c) d d1" using w by simp
    have step: "each_db (purged_only_mail c) d (snd (snd (purge_loop ns rc' errs' d1)))" for rc' errs'
      using purged_only_mail_trans 1 Cons.IH by (rule each_db_trans)
    show ?thesis using True w step by (cases e) simp_all
  qed
qed

lemma reaperPurge_ok:
  "each_db (purged_only_mail (now - defaultMailDeleteAge)) d (snd (reaperPurge now rc d))"
proof -
  let ?c = "now - defaultMailDeleteAge"
  obtain rc1 e d1 where p: "purge_loop (rc_databases rc) rc 0 d = (rc1, e, d1)"
    by (metis prod.collapse)
  obtain rc2 d2 where m: "mail_loop (rc_databases rc) ?c rc1 d1 = (rc2, d2)"
    by (metis prod.collapse)
  have 1: "each_db (purged_only_mail ?c) d d1"
    using purge_loop_ok [of ?c d "rc_databases rc" rc 0] p by simp
  have 2: "each_db (purged_only_mail ?c) d1 d2"
    using mail_loop_ok [of ?c d1 "rc_databases rc" rc1] m by simp
  have "each_db (purged_only_mail ?c) d d2"
    using purged_only_mail_trans 1 2 by (rule each_db_trans)
  then show ?thesis by (simp add: reaperPurge_def p m)
qed

lemma purged_distinct:
  assumes "purged_only_mail c db db'" "distinct (map i_id (issues db))"
    and "i \<in> set (issues db)" "i \<notin> set (issues db')"
  shows "i_status i = ''closed'' \<and> (\<exists>t. i_closed_at i = Some t \<and> t < c)
     \<and> (\<exists>l\<in>set (labels db). a_issue_id l = i_id i \<and> a_value l = ''gt:message'')"
proof -
  from assms(1,3,4) obtain j l where j: "j \<in> set (issues db)" "i_id j = i_id i" "mail_where c j"
    "l \<in> set (labels db)" "is_message_label j l"
    unfolding purged_only_mail_def by blast
  from j(1,2) assms(2,3) have "j = i"
    by (simp add: distinct_map inj_on_def)
  with j show ?thesis
    by (auto simp: mail_where_def is_message_label_def split: option.splits)
qed

text \<open>
  Claim C5, as the code has it.  The mail delete age is a constant of the source, with
  no configuration key: 7 days in the version of the reaper with the auto-close step,
  30 days in internal/daemon/wisp_reaper.go.  In a database with distinct issue ids, an
  issue that the purge step removes was closed, with \<^verbatim>\<open>closed_at\<close> before now minus
  that constant, and carried the label \<^verbatim>\<open>gt:message\<close>.
\<close>

theorem mail_purge_cutoff:
  assumes "dbs d n = Some db"
    and "distinct (map i_id (issues db))"
    and "i \<in> set (issues db)"
  shows "(dbs (snd (reaperPurge now rc d)) n = Some db' \<and> i \<notin> set (issues db')
       \<longrightarrow> i_status i = ''closed''
           \<and> (\<exists>t. i_closed_at i = Some t \<and> t < now - 7 * 24 * Hour)
           \<and> (\<exists>l\<in>set (labels db). a_issue_id l = i_id i \<and> a_value l = ''gt:message''))
     \<and> (dbs (snd (mail_purge_step_wisp_reaper_go now rc d)) n = Some db' \<and> i \<notin> set (issues db')
       \<longrightarrow> i_status i = ''closed''
           \<and> (\<exists>t. i_closed_at i = Some t \<and> t < now - 30 * 24 * Hour)
           \<and> (\<exists>l\<in>set (labels db). a_issue_id l = i_id i \<and> a_value l = ''gt:message''))
     \<and> defaultMailDeleteAge = 7 * 24 * Hour
     \<and> defaultMailDeleteAge_wisp_reaper_go = 30 * 24 * Hour
     \<and> Hour = 3600000000000"
proof -
  have 1: "dbs (snd (reaperPurge now rc d)) n = Some db' \<and> i \<notin> set (issues db')
       \<longrightarrow> i_status i = ''closed''
           \<and> (\<exists>t. i_closed_at i = Some t \<and> t < now - 7 * 24 * Hour)
           \<and> (\<exists>l\<in>set (labels db). a_issue_id l = i_id i \<and> a_value l = ''gt:message'')"
  proof
    assume a: "dbs (snd (reaperPurge now rc d)) n = Some db' \<and> i \<notin> set (issues db')"
    have "purged_only_mail (now - defaultMailDeleteAge) db db'"
      using reaperPurge_ok [of now d rc] assms(1) a by (blast intro: each_dbD)
    from purged_distinct [OF this assms(2,3)] a
    show "i_status i = ''closed''
           \<and> (\<exists>t. i_closed_at i = Some t \<and> t < now - 7 * 24 * Hour)
           \<and> (\<exists>l\<in>set (labels db). a_issue_id l = i_id i \<and> a_value l = ''gt:message'')"
      by (simp add: defaultMailDeleteAge_def)
  qed
  have 2: "dbs (snd (mail_purge_step_wisp_reaper_go now rc d)) n = Some db' \<and> i \<notin> set (issues db')
       \<longrightarrow> i_status i = ''closed''
           \<and> (\<exists>t. i_closed_at i = Some t \<and> t < now - 30 * 24 * Hour)
           \<and> (\<exists>l\<in>set (labels db). a_issue_id l = i_id i \<and> a_value l = ''gt:message'')"
  proof
    assume a: "dbs (snd (mail_purge_step_wisp_reaper_go now rc d)) n = Some db' \<and> i \<notin> set (issues db')"
    have "purged_only_mail (now - defaultMailDeleteAge_wisp_reaper_go) db db'"
      using mail_loop_ok [of "now - defaultMailDeleteAge_wisp_reaper_go" d "rc_databases rc" rc]
        assms(1) a unfolding mail_purge_step_wisp_reaper_go_def by (blast intro: each_dbD)
    from purged_distinct [OF this assms(2,3)] a
    show "i_status i = ''closed''
           \<and> (\<exists>t. i_closed_at i = Some t \<and> t < now - 30 * 24 * Hour)
           \<and> (\<exists>l\<in>set (labels db). a_issue_id l = i_id i \<and> a_value l = ''gt:message'')"
      by (simp add: defaultMailDeleteAge_wisp_reaper_go_def)
  qed
  have 3: "defaultMailDeleteAge = 7 * 24 * Hour" by (simp add: defaultMailDeleteAge_def)
  have 4: "defaultMailDeleteAge_wisp_reaper_go = 30 * 24 * Hour"
    by (simp add: defaultMailDeleteAge_wisp_reaper_go_def)
  have 5: "Hour = 3600000000000" by (simp add: Hour_def)
  show ?thesis
    apply (intro conjI)
        apply (rule 1)
       apply (rule 2)
      apply (rule 3)
     apply (rule 4)
    apply (rule 5)
    done
qed


subsection \<open>The scenarios, evaluated\<close>

theorem auto_close_only_stale_witness:
  "3 < length (issues stale_db)
   \<and> issues (snd (autoCloseStaleIssuesInDB ''hq'' (70 * Day) (100 * Day) False stale_db)) ! 3
       \<noteq> issues stale_db ! 3
   \<and> i_priority (issues stale_db ! 3) = 3
   \<and> map i_status (issues (snd (autoCloseStaleIssuesInDB ''hq'' (70 * Day) (100 * Day) False stale_db)))
       = [''open'', ''open'', ''open'', ''closed'', ''open'']
   \<and> 1 < i_priority (issues stale_db ! 3)
   \<and> i_updated_at (issues stale_db ! 3) < 70 * Day"
proof -
  have h1: "autoCloseStaleIssuesInDB ''hq'' (70 * Day) (100 * Day) False stale_db
      = (fst (autoCloseStaleIssuesInDB ''hq'' (70 * Day) (100 * Day) False stale_db),
         snd (autoCloseStaleIssuesInDB ''hq'' (70 * Day) (100 * Day) False stale_db))"
    by simp
  have h2: "3 < length (issues stale_db)" by code_simp
  have h3: "issues (snd (autoCloseStaleIssuesInDB ''hq'' (70 * Day) (100 * Day) False stale_db)) ! 3
       \<noteq> issues stale_db ! 3" by code_simp
  have a: "i_priority (issues stale_db ! 3) = 3" by code_simp
  have b: "map i_status (issues (snd (autoCloseStaleIssuesInDB ''hq'' (70 * Day) (100 * Day) False stale_db)))
       = [''open'', ''open'', ''open'', ''closed'', ''open'']" by code_simp
  from auto_close_only_stale [OF h1 h2 h3] h2 h3 a b show ?thesis by blast
qed


text \<open>
  Claim C2 at a concrete input.  The configuration has the dry-run flag set and names
  the database \<^verbatim>\<open>hq\<close>, which holds one message closed eight days ago.  After the run
  the message and its label are gone and a commit has been made: \<^verbatim>\<open>purgeOldMailInDB\<close>
  takes no dry-run flag, unlike the reap, purge and auto-close functions beside it.
\<close>

theorem dry_run_mail_purge_deletes:
  "DryRun (reaper_config True [''hq''])
   \<and> map_option (map i_id \<circ> issues) (dbs mail_town ''hq'') = Some [''m1'']
   \<and> map_option commits (dbs mail_town ''hq'') = Some []
   \<and> map_option (map i_id \<circ> issues)
        (dbs (snd (reapWisps (\<lambda>_. None) (Some (reaper_config True [''hq''])) (100 * Day) mail_town)) ''hq'')
       = Some []
   \<and> map_option labels
        (dbs (snd (reapWisps (\<lambda>_. None) (Some (reaper_config True [''hq''])) (100 * Day) mail_town)) ''hq'')
       = Some []
   \<and> map_option commits
        (dbs (snd (reapWisps (\<lambda>_. None) (Some (reaper_config True [''hq''])) (100 * Day) mail_town)) ''hq'')
       = Some [''reaper: purge 1 old mail from hq'']"
  by code_simp

text \<open>
  The claim as written gives 7 days for the default.  With the constant of
  internal/daemon/wisp_reaper.go the cutoff is not now minus 7 days, and a message closed
  eight days ago is kept by the mail purge step.
\<close>

theorem mail_purge_cutoff_counterexample:
  "100 * Day - defaultMailDeleteAge_wisp_reaper_go \<noteq> 100 * Day - 7 * 24 * Hour
   \<and> map_option (map i_closed_at \<circ> issues) (dbs mail_town ''hq'') = Some [Some (92 * Day)]
   \<and> 92 * Day < 100 * Day - 7 * 24 * Hour
   \<and> map_option (map i_id \<circ> issues)
        (dbs (snd (mail_purge_step_wisp_reaper_go (100 * Day) (fresh_cycle [''hq'']) mail_town)) ''hq'')
       = Some [''m1'']"
  by code_simp

theorem mail_purge_cutoff_witness:
  "dbs mail_town ''hq'' = Some mail_db
   \<and> distinct (map i_id (issues mail_db))
   \<and> issues mail_db ! 0 \<in> set (issues mail_db)
   \<and> map_option issues (dbs (snd (reaperPurge (100 * Day) (fresh_cycle [''hq'']) mail_town)) ''hq'')
       = Some []
   \<and> (\<exists>t. i_closed_at (issues mail_db ! 0) = Some t \<and> t < 100 * Day - 7 * 24 * Hour)"
proof -
  have h1: "dbs mail_town ''hq'' = Some mail_db" by (simp add: mail_town_def)
  have h2: "distinct (map i_id (issues mail_db))" by code_simp
  have h3: "issues mail_db ! 0 \<in> set (issues mail_db)" by code_simp
  have e: "map_option issues (dbs (snd (reaperPurge (100 * Day) (fresh_cycle [''hq'']) mail_town)) ''hq'')
       = Some []" by code_simp
  then obtain db' where db': "dbs (snd (reaperPurge (100 * Day) (fresh_cycle [''hq'']) mail_town)) ''hq'' = Some db'"
    "issues db' = []" by auto
  then have g: "dbs (snd (reaperPurge (100 * Day) (fresh_cycle [''hq'']) mail_town)) ''hq'' = Some db'
      \<and> issues mail_db ! 0 \<notin> set (issues db')" by simp
  from mail_purge_cutoff [OF h1 h2 h3, of "100 * Day" "fresh_cycle [''hq'']" db'] g
  have "\<exists>t. i_closed_at (issues mail_db ! 0) = Some t \<and> t < 100 * Day - 7 * 24 * Hour"
    by blast
  with h1 h2 h3 e show ?thesis by blast
qed

text \<open>
  The reap scenario of the spec: the orphan W2 is closed, W1 under the open parent P is
  left open, and the purge deletes W3, closed long ago under the closed parent Q.
\<close>

theorem parent_closure_gating_witness:
  "2 < length (wisps wisp_db)
   \<and> wisps (snd (reapWispsInDB ''hq'' (99 * Day) (100 * Day) False wisp_db)) ! 2 \<noteq> wisps wisp_db ! 2
   \<and> wisps wisp_db ! 4 \<in> set (wisps wisp_db)
   \<and> wisps wisp_db ! 4
       \<notin> set (wisps (delete_batch ''wisps'' wisp_auxTables (wisp_idQuery (93 * Day) wisp_db) wisp_db))
   \<and> wisps wisp_db ! 4
       \<notin> set (wisps (snd (purgeClosedWispsInDB ''hq'' (93 * Day) False wisp_db)))
   \<and> wisps wisp_db ! 1 \<in> set (wisps wisp_db)
   \<and> has_parent_row wisp_db (wisps wisp_db ! 1)
   \<and> \<not> has_closed_parent wisp_db (wisps wisp_db ! 1)
   \<and> map w_status (wisps (snd (reapWispsInDB ''hq'' (99 * Day) (100 * Day) False wisp_db)))
       = [''open'', ''open'', ''closed'', ''closed'', ''closed'']
   \<and> w_created_at (wisps wisp_db ! 2) < 99 * Day
   \<and> wisps wisp_db ! 1 \<in> set (wisps (snd (reapWispsInDB ''hq'' (99 * Day) (100 * Day) False wisp_db)))
   \<and> wisps wisp_db ! 1 \<in> set (wisps (snd (purgeClosedWispsInDB ''hq'' (93 * Day) False wisp_db)))"
proof -
  have h1: "2 < length (wisps wisp_db)
     \<and> wisps (snd (reapWispsInDB ''hq'' (99 * Day) (100 * Day) False wisp_db)) ! 2 \<noteq> wisps wisp_db ! 2"
    by code_simp
  have h2: "wisps wisp_db ! 4 \<in> set (wisps wisp_db)
     \<and> wisps wisp_db ! 4
       \<notin> set (wisps (delete_batch ''wisps'' wisp_auxTables (wisp_idQuery (93 * Day) wisp_db) wisp_db))"
    by code_simp
  have h3: "wisps wisp_db ! 4 \<in> set (wisps wisp_db)
     \<and> wisps wisp_db ! 4 \<notin> set (wisps (snd (purgeClosedWispsInDB ''hq'' (93 * Day) False wisp_db)))"
    by code_simp
  have h4: "wisps wisp_db ! 1 \<in> set (wisps wisp_db) \<and> has_parent_row wisp_db (wisps wisp_db ! 1)
     \<and> \<not> has_closed_parent wisp_db (wisps wisp_db ! 1)"
    by code_simp
  have s: "map w_status (wisps (snd (reapWispsInDB ''hq'' (99 * Day) (100 * Day) False wisp_db)))
       = [''open'', ''open'', ''closed'', ''closed'', ''closed'']"
    by code_simp
  note A = parent_closure_gating [of 2 wisp_db "''hq''" "99 * Day" "100 * Day" False
      "wisps wisp_db ! 4" "93 * Day" "0" "0"]
  note B = parent_closure_gating [of 2 wisp_db "''hq''" "99 * Day" "100 * Day" False
      "wisps wisp_db ! 1" "93 * Day" "0" "0"]
  from A h1 have c: "w_created_at (wisps wisp_db ! 2) < 99 * Day" by blast
  from B h4 have d: "wisps wisp_db ! 1 \<in> set (wisps (snd (reapWispsInDB ''hq'' (99 * Day) (100 * Day) False wisp_db)))
     \<and> wisps wisp_db ! 1 \<in> set (wisps (snd (purgeClosedWispsInDB ''hq'' (93 * Day) False wisp_db)))"
    by blast
  from h1 h2 h3 h4 s c d show ?thesis by blast
qed

end
